theory Spec2Isabelle
  imports Main "HOL-Library.FSet"
begin

section \<open>Python values and library boundary\<close>

text \<open>
  The program is one Python module (\<^verbatim>\<open>src/main.py\<close>). Values that cross the JSON
  boundary are dynamically typed, so they are modelled by one datatype. A finite float is
  represented by the rational number it denotes.
\<close>

datatype pyval =
    PNone
  | PBool bool
  | PInt int
  | PFloat rat
  | PStr string
  | PList "pyval list"
  | PDict "(string \<times> pyval) list"

datatype error =
    KeyError | TypeError | ValueError | AttributeError | ZeroDivisionError
  | OverflowError | IndexError

text \<open>Sequencing of steps that may raise: the first exception ends the sequence.\<close>

definition ebind :: "error + 'a \<Rightarrow> ('a \<Rightarrow> error + 'b) \<Rightarrow> error + 'b" where
  "ebind m f = (case m of Inl e \<Rightarrow> Inl e | Inr x \<Rightarrow> f x)"

text \<open>Truth value of an object, as tested by \<^verbatim>\<open>if x\<close> and \<^verbatim>\<open>x and y\<close>.\<close>

fun truthy :: "pyval \<Rightarrow> bool" where
  "truthy PNone = False"
| "truthy (PBool b) = b"
| "truthy (PInt n) = (n \<noteq> 0)"
| "truthy (PFloat q) = (q \<noteq> 0)"
| "truthy (PStr s) = (s \<noteq> [])"
| "truthy (PList xs) = (xs \<noteq> [])"
| "truthy (PDict kvs) = (kvs \<noteq> [])"

text \<open>\<^verbatim>\<open>x.get(k, d)\<close>: only a dict has the method; anything else raises AttributeError.\<close>

fun py_get :: "pyval \<Rightarrow> string \<Rightarrow> pyval \<Rightarrow> error + pyval" where
  "py_get (PDict kvs) k d = Inr (case map_of kvs k of None \<Rightarrow> d | Some v \<Rightarrow> v)"
| "py_get _ k d = Inl AttributeError"

text \<open>\<^verbatim>\<open>h[k]\<close> on a dict: KeyError when the key is missing.\<close>

definition subscript :: "(string \<times> pyval) list \<Rightarrow> string \<Rightarrow> error + pyval" where
  "subscript h k = (case map_of h k of None \<Rightarrow> Inl KeyError | Some v \<Rightarrow> Inr v)"

text \<open>
  Set membership goes through \<^verbatim>\<open>hash\<close> and \<^verbatim>\<open>==\<close>: lists and dicts are
  unhashable (TypeError), and \<^verbatim>\<open>True == 1 == 1.0\<close> are one element.
\<close>

datatype hkey = KNone | KNum rat | KStr string

fun py_hash_key :: "pyval \<Rightarrow> error + hkey" where
  "py_hash_key PNone = Inr KNone"
| "py_hash_key (PBool b) = Inr (KNum (if b then 1 else 0))"
| "py_hash_key (PInt n) = Inr (KNum (of_int n))"
| "py_hash_key (PFloat q) = Inr (KNum q)"
| "py_hash_key (PStr s) = Inr (KStr s)"
| "py_hash_key (PList xs) = Inl TypeError"
| "py_hash_key (PDict kvs) = Inl TypeError"

text \<open>
  Library functions whose result depends on IEEE arithmetic, on the calendar or on the
  JSON codec chosen at import time are parameters of the model:
  \<^item> \<open>int_of_float x\<close> is \<^verbatim>\<open>int(float(x))\<close>;
  \<^item> \<open>true_div m b\<close> is \<^verbatim>\<open>m / b\<close> for a divisor that is not zero;
  \<^item> \<open>profit_val g s p\<close> is \<^verbatim>\<open>int(g * s - p)\<close>;
  \<^item> \<open>format_gram g\<close> is \<^verbatim>\<open>f"{g:,.4f}"\<close>;
  \<^item> \<open>format_float_comma x\<close> is \<^verbatim>\<open>f"{x:,}"\<close> for a float \<open>x\<close>;
  \<^item> \<open>strptime d\<close> is \<^verbatim>\<open>datetime.strptime(d, "%Y-%m-%d %H:%M:%S")\<close>, giving the
    weekday number and the \<^verbatim>\<open>%H:%M:%S\<close> text, or \<open>None\<close> when it raises;
  \<^item> \<open>py_str x\<close> is \<^verbatim>\<open>str(x)\<close>;
  \<^item> \<open>json_dumps_bytes\<close> is the codec's serializer.
\<close>

record 'f libs =
  int_of_float :: "pyval \<Rightarrow> error + int"
  true_div :: "int \<Rightarrow> pyval \<Rightarrow> error + 'f"
  profit_val :: "'f \<Rightarrow> pyval \<Rightarrow> int \<Rightarrow> error + int"
  format_gram :: "'f \<Rightarrow> string"
  format_float_comma :: "rat \<Rightarrow> string"
  strptime :: "pyval \<Rightarrow> (nat \<times> string) option"
  py_str :: "pyval \<Rightarrow> string"
  json_dumps_bytes :: "pyval \<Rightarrow> string"

section \<open>Module state\<close>

definition MAX_HISTORY :: nat where "MAX_HISTORY = 1441"
definition MAX_USD_HISTORY :: nat where "MAX_USD_HISTORY = 11"
definition API_POLL_INTERVAL :: rat where "API_POLL_INTERVAL = 2 / 100"
definition USD_POLL_INTERVAL :: rat where "USD_POLL_INTERVAL = 3 / 10"
definition BROADCAST_DEBOUNCE :: rat where "BROADCAST_DEBOUNCE = 8 / 1000"
definition MAX_CONNECTIONS :: nat where "MAX_CONNECTIONS = 500"
definition BROADCAST_CHUNK_SIZE :: nat where "BROADCAST_CHUNK_SIZE = 50"
definition STATE_CACHE_TTL :: rat where "STATE_CACHE_TTL = 5 / 100"

text \<open>The three status markers, as the UTF-8 bytes of the source's string literals.\<close>

definition STATUS_UP :: string where
  "STATUS_UP = [CHR 0xF0, CHR 0x9F, CHR 0x9A, CHR 0x80]"
definition STATUS_DOWN :: string where
  "STATUS_DOWN = [CHR 0xF0, CHR 0x9F, CHR 0x94, CHR 0xBB]"
definition STATUS_FLAT :: string where
  "STATUS_FLAT = [CHR 0xE2, CHR 0x9E, CHR 0x96]"

type_synonym pydict = "(string \<times> pyval) list"

record globals =
  history :: "pydict list"
  usd_idr_history :: "pydict list"
  last_buy :: "int option"
  shown_updates :: "hkey fset"
  treasury_info :: string

definition init_globals :: globals where
  "init_globals = \<lparr> history = [], usd_idr_history = [], last_buy = None,
     shown_updates = {||},
     treasury_info = ''Belum ada info treasury.'' \<rparr>"

text \<open>
  \<^verbatim>\<open>deque(maxlen=n).append(x)\<close>: the item is added at the right and, when the length
  then exceeds \<open>n\<close>, one item is removed at the left.
\<close>

definition deque_append :: "nat \<Rightarrow> 'a list \<Rightarrow> 'a \<Rightarrow> 'a list" where
  "deque_append maxlen d x =
     (let d' = d @ [x] in if length d' > maxlen then tl d' else d')"

section \<open>The price poll loop\<close>

text \<open>Lines 363 to 371 of \<^verbatim>\<open>api_loop\<close>: the derived fields of a new tick.\<close>

definition tick_diff :: "int option \<Rightarrow> int \<Rightarrow> int" where
  "tick_diff lb buy = (case lb of None \<Rightarrow> 0 | Some p \<Rightarrow> buy - p)"

definition tick_status :: "int option \<Rightarrow> int \<Rightarrow> string" where
  "tick_status lb buy =
     (case lb of None \<Rightarrow> STATUS_FLAT
      | Some p \<Rightarrow> if buy > p then STATUS_UP
                  else if buy < p then STATUS_DOWN
                  else STATUS_FLAT)"

definition price_item :: "int \<Rightarrow> int \<Rightarrow> string \<Rightarrow> int \<Rightarrow> pyval \<Rightarrow> pydict" where
  "price_item buy sell status diff upd =
     [(''buying_rate'', PInt buy), (''selling_rate'', PInt sell),
      (''status'', PStr status), (''diff'', PInt diff), (''created_at'', upd)]"

text \<open>
  Lines 372 to 382: the append, the new \<^verbatim>\<open>last_buy\<close>, and the dedup set with its
  reset to the one id just added once it holds more than 5000.
\<close>

definition store_tick :: "int \<Rightarrow> int \<Rightarrow> pyval \<Rightarrow> hkey \<Rightarrow> globals \<Rightarrow> globals" where
  "store_tick buy sell upd k g =
     (let diff = tick_diff (last_buy g) buy;
          status = tick_status (last_buy g) buy;
          added = finsert k (shown_updates g)
      in g\<lparr> history := deque_append MAX_HISTORY (history g)
                          (price_item buy sell status diff upd),
             last_buy := Some buy,
             shown_updates := (if fcard added > 5000 then {|k|} else added) \<rparr>)"

text \<open>
  Lines 357 to 383: what the loop does with a truthy fetch result. The result is the new
  module state and whether \<^verbatim>\<open>schedule_broadcast\<close> was spawned, or the exception raised.
  Every statement that can raise comes before the first mutation.
\<close>

definition api_loop_apply :: "'f libs \<Rightarrow> pyval \<Rightarrow> globals \<Rightarrow> error + (globals \<times> bool)" where
  "api_loop_apply L result g =
     ebind (py_get result ''data'' (PDict [])) (\<lambda>data.
     ebind (py_get data ''buying_rate'' PNone) (\<lambda>buy.
     ebind (py_get data ''selling_rate'' PNone) (\<lambda>sell.
     ebind (py_get data ''updated_at'' PNone) (\<lambda>upd.
       if truthy buy \<and> truthy sell \<and> truthy upd then
         ebind (py_hash_key upd) (\<lambda>k.
           if k |\<notin>| shown_updates g then
             ebind (int_of_float L buy) (\<lambda>b.
             ebind (int_of_float L sell) (\<lambda>s.
               Inr (store_tick b s upd k g, True)))
           else Inr (g, False))
       else Inr (g, False)))))"

text \<open>
  One iteration of \<^verbatim>\<open>while True\<close> in \<^verbatim>\<open>api_loop\<close>, given what
  \<^verbatim>\<open>fetch_treasury_price\<close> returned (\<open>PNone\<close> when the fetch failed; the function
  swallows every exception of its own). The state is the module state and the local
  \<^verbatim>\<open>consecutive_errors\<close>; the result adds the sleep taken before the next iteration and
  whether a broadcast was scheduled. Cancellation is not modelled.
\<close>

definition api_loop_iter ::
  "'f libs \<Rightarrow> pyval \<Rightarrow> globals \<times> nat \<Rightarrow> (globals \<times> nat) \<times> rat \<times> bool" where
  "api_loop_iter L result st =
     (let g = fst st; consecutive_errors = snd st in
      if truthy result then
        (let consecutive_errors = 0 in
         case api_loop_apply L result g of
           Inr (g', spawned) \<Rightarrow> ((g', consecutive_errors), API_POLL_INTERVAL, spawned)
         | Inl e \<Rightarrow>
             (let consecutive_errors = consecutive_errors + 1 in
              ((g, consecutive_errors), min ((1 / 10) * of_nat consecutive_errors) 2, False)))
      else
        (let consecutive_errors = consecutive_errors + 1 in
         ((g, consecutive_errors), API_POLL_INTERVAL, False)))"

text \<open>The loop over a finite sequence of fetch results: final state, and the sleeps taken.\<close>

fun api_loop :: "'f libs \<Rightarrow> pyval list \<Rightarrow> globals \<times> nat \<Rightarrow> globals \<times> nat" where
  "api_loop L [] st = st"
| "api_loop L (r # rs) st = api_loop L rs (fst (api_loop_iter L r st))"

fun api_loop_delays :: "'f libs \<Rightarrow> pyval list \<Rightarrow> globals \<times> nat \<Rightarrow> rat list" where
  "api_loop_delays L [] st = []"
| "api_loop_delays L (r # rs) st =
     fst (snd (api_loop_iter L r st)) # api_loop_delays L rs (fst (api_loop_iter L r st))"

section \<open>The rate poll loop\<close>

text \<open>
  One iteration of \<^verbatim>\<open>usd_idr_loop\<close>, given what \<^verbatim>\<open>fetch_usd_idr_price\<close> returned and
  the clock text \<open>wib\<close>. The bare \<^verbatim>\<open>except\<close> sleeps one second.
\<close>

definition usd_idr_loop_iter ::
  "string option \<Rightarrow> string \<Rightarrow> globals \<Rightarrow> globals \<times> rat \<times> bool" where
  "usd_idr_loop_iter price wib g =
     (case price of
        None \<Rightarrow> (g, USD_POLL_INTERVAL, False)
      | Some p \<Rightarrow>
          if p = [] then (g, USD_POLL_INTERVAL, False)
          else
            (case (if usd_idr_history g = [] then Inr True
                   else (case subscript (last (usd_idr_history g)) ''price'' of
                           Inl e \<Rightarrow> Inl e
                         | Inr v \<Rightarrow> Inr (v \<noteq> PStr p))) of
               Inl e \<Rightarrow> (g, 1, False)
             | Inr should_update \<Rightarrow>
                 if should_update then
                   (g\<lparr> usd_idr_history := deque_append MAX_USD_HISTORY (usd_idr_history g)
                         [(''price'', PStr p), (''time'', PStr wib)] \<rparr>,
                    USD_POLL_INTERVAL, True)
                 else (g, USD_POLL_INTERVAL, False)))"

fun usd_idr_loop :: "(string option \<times> string) list \<Rightarrow> globals \<Rightarrow> globals" where
  "usd_idr_loop [] g = g"
| "usd_idr_loop ((price, wib) # rs) g = usd_idr_loop rs (fst (usd_idr_loop_iter price wib g))"

section \<open>Formatting\<close>

text \<open>Decimal digits of a natural number, most significant first.\<close>

fun dec_nat :: "nat \<Rightarrow> string" where
  "dec_nat n =
     (if n < 10 then [''0123456789'' ! n]
      else dec_nat (n div 10) @ [''0123456789'' ! (n mod 10)])"

declare dec_nat.simps [simp del]

text \<open>Groups of three, on the reversed digits.\<close>

fun group3 :: "string \<Rightarrow> string" where
  "group3 (a # b # c # d # r) = a # b # c # CHR '','' # group3 (d # r)"
| "group3 xs = xs"

text \<open>\<^verbatim>\<open>f"{n:,}"\<close> for an integer \<open>n\<close>.\<close>

definition comma_int :: "int \<Rightarrow> string" where
  "comma_int n =
     (if n < 0 then [CHR ''-''] else []) @ rev (group3 (rev (dec_nat (nat \<bar>n\<bar>))))"

text \<open>\<^verbatim>\<open>s.replace(",", ".")\<close>.\<close>

definition replace_comma :: "string \<Rightarrow> string" where
  "replace_comma s = map (\<lambda>c. if c = CHR '','' then CHR ''.'' else c) s"

text \<open>
  \<^verbatim>\<open>format_rupiah\<close>. The \<^verbatim>\<open>lru_cache\<close> wrapper hashes the argument first; the format
  specification \<^verbatim>\<open>,\<close> is refused by a string (ValueError) and by \<^verbatim>\<open>None\<close> (TypeError).
\<close>

definition format_rupiah :: "'f libs \<Rightarrow> pyval \<Rightarrow> error + string" where
  "format_rupiah L n =
     (case n of
        PInt i \<Rightarrow> Inr (replace_comma (comma_int i))
      | PBool b \<Rightarrow> Inr (replace_comma (comma_int (if b then 1 else 0)))
      | PFloat q \<Rightarrow> Inr (replace_comma (format_float_comma L q))
      | PStr s \<Rightarrow> Inl ValueError
      | PNone \<Rightarrow> Inl TypeError
      | PList xs \<Rightarrow> Inl TypeError
      | PDict kvs \<Rightarrow> Inl TypeError)"

definition HARI_INDO :: "string list" where
  "HARI_INDO = [''Senin'', ''Selasa'', ''Rabu'', ''Kamis'', ''Jumat'', ''Sabtu'', ''Minggu'']"

text \<open>An interpolated field \<^verbatim>\<open>{x}\<close> of an f-string: a string as it is, else \<^verbatim>\<open>str(x)\<close>.\<close>

definition py_format :: "'f libs \<Rightarrow> pyval \<Rightarrow> string" where
  "py_format L v = (case v of PStr s \<Rightarrow> s | _ \<Rightarrow> py_str L v)"

text \<open>
  \<^verbatim>\<open>get_day_time\<close>: the cache wrapper raises on an unhashable argument; inside, every
  exception gives the argument back.
\<close>

definition get_day_time :: "'f libs \<Rightarrow> pyval \<Rightarrow> error + pyval" where
  "get_day_time L date_str =
     ebind (py_hash_key date_str) (\<lambda>_.
       Inr (case strptime L date_str of
              None \<Rightarrow> date_str
            | Some (wd, hms) \<Rightarrow>
                if wd < length HARI_INDO then PStr (HARI_INDO ! wd @ '' '' @ hms)
                else date_str))"

definition format_waktu_only :: "'f libs \<Rightarrow> pyval \<Rightarrow> pyval \<Rightarrow> error + string" where
  "format_waktu_only L date_str status =
     ebind (get_day_time L date_str) (\<lambda>d. Inr (py_format L d @ py_format L status))"

definition py_abs :: "pyval \<Rightarrow> error + pyval" where
  "py_abs v =
     (case v of
        PInt i \<Rightarrow> Inr (PInt \<bar>i\<bar>)
      | PBool b \<Rightarrow> Inr (PInt (if b then 1 else 0))
      | PFloat q \<Rightarrow> Inr (PFloat \<bar>q\<bar>)
      | _ \<Rightarrow> Inl TypeError)"

definition format_diff_display :: "'f libs \<Rightarrow> pyval \<Rightarrow> pyval \<Rightarrow> error + string" where
  "format_diff_display L diff status =
     ebind (py_hash_key diff) (\<lambda>_.
     ebind (py_hash_key status) (\<lambda>_.
       if status = PStr STATUS_UP then
         ebind (format_rupiah L diff) (\<lambda>d. Inr (STATUS_UP @ ''+'' @ d))
       else if status = PStr STATUS_DOWN then
         ebind (py_abs diff) (\<lambda>a.
         ebind (format_rupiah L a) (\<lambda>d. Inr (STATUS_DOWN @ ''-'' @ d)))
       else Inr (STATUS_FLAT @ ''tetap'')))"

definition format_transaction_display :: "string \<Rightarrow> string \<Rightarrow> string \<Rightarrow> string" where
  "format_transaction_display buy sell diff_display =
     ''Beli: '' @ buy @ ''<br>Jual: '' @ sell @ ''<br>'' @ diff_display"

definition PROFIT_CONFIGS :: "(int \<times> int) list" where
  "PROFIT_CONFIGS =
     [(20000000, 19314000), (30000000, 28980000), (40000000, 38652000), (50000000, 48325000)]"

definition GREEN_ARROW :: string where
  "GREEN_ARROW = [CHR 0xF0, CHR 0x9F, CHR 0x9F, CHR 0xA2, CHR 0xE2, CHR 0x9E, CHR 0xBA]"
definition RED_ARROW :: string where
  "RED_ARROW = [CHR 0xF0, CHR 0x9F, CHR 0x94, CHR 0xB4, CHR 0xE2, CHR 0x9E, CHR 0xBA]"
definition FLAT_ARROW :: string where
  "FLAT_ARROW = [CHR 0xE2, CHR 0x9E, CHR 0x96, CHR 0xE2, CHR 0x9E, CHR 0xBA]"

text \<open>The number a value stands for in arithmetic, if it is one.\<close>

definition num_val :: "pyval \<Rightarrow> rat option" where
  "num_val v =
     (case v of
        PInt i \<Rightarrow> Some (of_int i)
      | PBool b \<Rightarrow> Some (if b then 1 else 0)
      | PFloat q \<Rightarrow> Some q
      | _ \<Rightarrow> None)"

text \<open>\<^verbatim>\<open>modal / buy_rate\<close>: TypeError on a non-number, ZeroDivisionError on zero.\<close>

definition py_truediv :: "'f libs \<Rightarrow> int \<Rightarrow> pyval \<Rightarrow> error + 'f" where
  "py_truediv L modal buy_rate =
     (case num_val buy_rate of
        None \<Rightarrow> Inl TypeError
      | Some q \<Rightarrow> if q = 0 then Inl ZeroDivisionError else true_div L modal buy_rate)"

text \<open>The body of the \<^verbatim>\<open>try\<close> in \<^verbatim>\<open>calc_profit\<close>.\<close>

definition calc_profit_try :: "'f libs \<Rightarrow> pydict \<Rightarrow> int \<Rightarrow> int \<Rightarrow> error + string" where
  "calc_profit_try L h modal pokok =
     ebind (subscript h ''buying_rate'') (\<lambda>buy_rate.
     ebind (subscript h ''selling_rate'') (\<lambda>sell_rate.
     ebind (py_truediv L modal buy_rate) (\<lambda>gram.
     ebind (profit_val L gram sell_rate pokok) (\<lambda>val.
       let gram_str = replace_comma (format_gram L gram) in
       if val > 0 then
         ebind (format_rupiah L (PInt val))
           (\<lambda>v. Inr (''+'' @ v @ GREEN_ARROW @ gram_str @ ''gr''))
       else if val < 0 then
         ebind (format_rupiah L (PInt \<bar>val\<bar>))
           (\<lambda>v. Inr (''-'' @ v @ RED_ARROW @ gram_str @ ''gr''))
       else
         ebind (format_rupiah L (PInt 0))
           (\<lambda>v. Inr (v @ FLAT_ARROW @ gram_str @ ''gr''))))))"

text \<open>\<^verbatim>\<open>calc_profit\<close>: the bare \<^verbatim>\<open>except\<close> turns every exception into \<^verbatim>\<open>"-"\<close>.\<close>

definition calc_profit :: "'f libs \<Rightarrow> pydict \<Rightarrow> int \<Rightarrow> int \<Rightarrow> string" where
  "calc_profit L h modal pokok =
     (case calc_profit_try L h modal pokok of Inl e \<Rightarrow> ''-'' | Inr s \<Rightarrow> s)"

section \<open>Snapshot building\<close>

definition build_single_history_item :: "'f libs \<Rightarrow> pydict \<Rightarrow> error + pyval" where
  "build_single_history_item L h =
     ebind (subscript h ''buying_rate'') (\<lambda>b.
     ebind (format_rupiah L b) (\<lambda>buy_fmt.
     ebind (subscript h ''selling_rate'') (\<lambda>s.
     ebind (format_rupiah L s) (\<lambda>sell_fmt.
     ebind (subscript h ''status'') (\<lambda>status.
     ebind (format_diff_display L (case map_of h ''diff'' of None \<Rightarrow> PInt 0 | Some d \<Rightarrow> d) status)
       (\<lambda>diff_display.
     ebind (subscript h ''created_at'') (\<lambda>created_at.
     ebind (format_waktu_only L created_at status) (\<lambda>waktu.
       Inr (PDict
         [(''buying_rate'', PStr buy_fmt),
          (''selling_rate'', PStr sell_fmt),
          (''waktu_display'', PStr waktu),
          (''diff_display'', PStr diff_display),
          (''transaction_display'',
             PStr (format_transaction_display buy_fmt sell_fmt diff_display)),
          (''created_at'', created_at),
          (''jt20'', PStr (calc_profit L h (fst (PROFIT_CONFIGS ! 0)) (snd (PROFIT_CONFIGS ! 0)))),
          (''jt30'', PStr (calc_profit L h (fst (PROFIT_CONFIGS ! 1)) (snd (PROFIT_CONFIGS ! 1)))),
          (''jt40'', PStr (calc_profit L h (fst (PROFIT_CONFIGS ! 2)) (snd (PROFIT_CONFIGS ! 2)))),
          (''jt50'', PStr (calc_profit L h (fst (PROFIT_CONFIGS ! 3)) (snd (PROFIT_CONFIGS ! 3))))
         ])))))))))"

text \<open>A list comprehension: the first element that raises ends it.\<close>

fun collect :: "('a \<Rightarrow> error + 'b) \<Rightarrow> 'a list \<Rightarrow> error + 'b list" where
  "collect f [] = Inr []"
| "collect f (x # xs) = ebind (f x) (\<lambda>y. ebind (collect f xs) (\<lambda>ys. Inr (y # ys)))"

definition build_history_data :: "'f libs \<Rightarrow> globals \<Rightarrow> error + pyval list" where
  "build_history_data L g = collect (build_single_history_item L) (history g)"

definition build_usd_idr_data :: "globals \<Rightarrow> error + pyval list" where
  "build_usd_idr_data g =
     collect (\<lambda>h. ebind (subscript h ''price'') (\<lambda>p.
                   ebind (subscript h ''time'') (\<lambda>t.
                     Inr (PDict [(''price'', p), (''time'', t)]))))
       (usd_idr_history g)"

text \<open>The dict literal that \<^verbatim>\<open>build_full_state_bytes\<close> hands to the serializer.\<close>

definition build_full_state :: "'f libs \<Rightarrow> globals \<Rightarrow> error + pyval" where
  "build_full_state L g =
     ebind (build_history_data L g) (\<lambda>hs.
     ebind (build_usd_idr_data g) (\<lambda>us.
       Inr (PDict [(''history'', PList hs), (''usd_idr_history'', PList us),
                   (''treasury_info'', PStr (treasury_info g))])))"

definition build_full_state_bytes :: "'f libs \<Rightarrow> globals \<Rightarrow> error + string" where
  "build_full_state_bytes L g =
     ebind (build_full_state L g) (\<lambda>doc. Inr (json_dumps_bytes L doc))"

section \<open>StateCache\<close>

text \<open>
  The fields of \<^verbatim>\<open>StateCache\<close>, without the lock. \<open>rebuilds\<close> is not a field of the
  source: it counts the calls of \<^verbatim>\<open>build_full_state_bytes\<close> made through the cache.
\<close>

record state_cache =
  cache :: "string option"
  cache_time :: rat
  version :: nat
  rebuilds :: nat

definition init_state_cache :: state_cache where
  "init_state_cache = \<lparr> cache = None, cache_time = 0, version = 0, rebuilds = 0 \<rparr>"

definition invalidate :: "state_cache \<Rightarrow> state_cache" where
  "invalidate c = c\<lparr> version := version c + 1, cache := None \<rparr>"

text \<open>
  The test \<^verbatim>\<open>self._cache and (now - self._cache_time) < STATE_CACHE_TTL\<close>; an empty
  bytes object is false like \<^verbatim>\<open>None\<close>.
\<close>

definition cache_fresh :: "rat \<Rightarrow> state_cache \<Rightarrow> bool" where
  "cache_fresh now c =
     (case cache c of
        None \<Rightarrow> False
      | Some b \<Rightarrow> b \<noteq> [] \<and> now - cache_time c < STATE_CACHE_TTL)"

text \<open>
  Lines 89 to 94: the body under the lock, run by a caller that read the clock as \<open>now\<close>
  before it asked for the lock. An exception of the build leaves the fields as they were.
\<close>

definition get_state_bytes_locked ::
  "'f libs \<Rightarrow> rat \<Rightarrow> globals \<Rightarrow> state_cache \<Rightarrow> (error + string) \<times> state_cache" where
  "get_state_bytes_locked L now g c =
     (if cache_fresh now c then (Inr (the (cache c)), c)
      else
        (case build_full_state_bytes L g of
           Inl e \<Rightarrow> (Inl e, c\<lparr> rebuilds := rebuilds c + 1 \<rparr>)
         | Inr b \<Rightarrow>
             (Inr b, c\<lparr> cache := Some b, cache_time := now, rebuilds := rebuilds c + 1 \<rparr>)))"

text \<open>
  \<^verbatim>\<open>get_state_bytes\<close> called at loop time \<open>now\<close>. Nothing awaits while the lock is
  held, so a caller always finds the lock free and the call runs without suspension.
\<close>

definition get_state_bytes ::
  "'f libs \<Rightarrow> rat \<Rightarrow> globals \<Rightarrow> state_cache \<Rightarrow> (error + string) \<times> state_cache" where
  "get_state_bytes L now g c =
     (if cache_fresh now c then (Inr (the (cache c)), c)
      else get_state_bytes_locked L now g c)"

text \<open>
  Callers that all missed on line 87 and then take the lock one after the other, each
  with the clock value it read and the module state it finds.
\<close>

fun locked_callers :: "'f libs \<Rightarrow> (rat \<times> globals) list \<Rightarrow> state_cache \<Rightarrow> state_cache" where
  "locked_callers L [] c = c"
| "locked_callers L ((now, g) # cs) c =
     locked_callers L cs (snd (get_state_bytes_locked L now g c))"

section \<open>ConnectionManager\<close>

definition connect :: "'ws \<Rightarrow> 'ws fset \<Rightarrow> bool \<times> 'ws fset" where
  "connect ws connections =
     (if fcard connections \<ge> MAX_CONNECTIONS then (False, connections)
      else (True, finsert ws connections))"

definition disconnect :: "'ws \<Rightarrow> 'ws fset \<Rightarrow> 'ws fset" where
  "disconnect ws connections = connections |-| {|ws|}"

text \<open>
  What \<^verbatim>\<open>ws.send_bytes\<close> does when awaited: it completes or raises after some time, or
  never returns.
\<close>

datatype send = Completes rat | Raises rat | Hangs

definition SEND_TIMEOUT :: rat where "SEND_TIMEOUT = 5"

text \<open>
  \<^verbatim>\<open>_send_safe\<close>: \<^verbatim>\<open>wait_for\<close> cancels the send at the timeout and raises; the bare
  \<^verbatim>\<open>except\<close> turns every exception into \<^verbatim>\<open>False\<close>. The second function is the time the
  call takes.
\<close>

definition send_safe :: "send \<Rightarrow> bool" where
  "send_safe s =
     (case s of
        Completes d \<Rightarrow> d < SEND_TIMEOUT
      | Raises d \<Rightarrow> False
      | Hangs \<Rightarrow> False)"

definition send_safe_time :: "send \<Rightarrow> rat" where
  "send_safe_time s =
     (case s of
        Completes d \<Rightarrow> min d SEND_TIMEOUT
      | Raises d \<Rightarrow> min d SEND_TIMEOUT
      | Hangs \<Rightarrow> SEND_TIMEOUT)"

text \<open>\<^verbatim>\<open>range(0, n, step)\<close> for a positive step.\<close>

definition range_step :: "nat \<Rightarrow> nat \<Rightarrow> nat list" where
  "range_step n step = map (\<lambda>j. j * step) [0 ..< (n + step - 1) div step]"

definition broadcast_chunks :: "'ws list \<Rightarrow> 'ws list list" where
  "broadcast_chunks connections =
     map (\<lambda>i. take BROADCAST_CHUNK_SIZE (drop i connections))
       (range_step (length connections) BROADCAST_CHUNK_SIZE)"

text \<open>Lines 131 to 140: the subscribers marked, chunk after chunk.\<close>

definition broadcast_failed :: "('ws \<Rightarrow> send) \<Rightarrow> 'ws list \<Rightarrow> 'ws list" where
  "broadcast_failed net connections =
     concat (map (\<lambda>chunk. filter (\<lambda>ws. \<not> send_safe (net ws)) chunk)
              (broadcast_chunks connections))"

text \<open>
  \<^verbatim>\<open>broadcast\<close>. \<open>connections\<close> is \<^verbatim>\<open>list(self._connections)\<close>, the registry in the
  order the set enumerates it; \<open>registry\<close> is the set as it is when the last chunk has
  completed (other tasks may have changed it while the sends were awaited).
\<close>

definition broadcast :: "('ws \<Rightarrow> send) \<Rightarrow> 'ws list \<Rightarrow> 'ws fset \<Rightarrow> 'ws fset" where
  "broadcast net connections registry =
     (if connections = [] then registry
      else fold disconnect (broadcast_failed net connections) registry)"

section \<open>BroadcastDebouncer and the event loop\<close>

text \<open>
  The state the tasks share. \<open>api_errors\<close> is the local \<^verbatim>\<open>consecutive_errors\<close> of
  \<^verbatim>\<open>api_loop\<close>; \<open>wake_at\<close> is the deadline of the \<^verbatim>\<open>schedule_broadcast\<close> task that
  sleeps, if one does; \<open>broadcasts\<close> lists the messages handed to
  \<^verbatim>\<open>manager.broadcast\<close>, oldest first.
\<close>

record system =
  globs :: globals
  api_errors :: nat
  state_cache :: state_cache
  pending :: bool
  last_broadcast :: rat
  wake_at :: "rat option"
  broadcasts :: "string list"

definition init_system :: system where
  "init_system = \<lparr> globs = init_globals, api_errors = 0, state_cache = init_state_cache,
     pending = False, last_broadcast = 0, wake_at = None, broadcasts = [] \<rparr>"

text \<open>
  Lines 333 to 338 of \<^verbatim>\<open>schedule_broadcast\<close>, run at loop time \<open>now\<close>: return when a
  cycle is pending, else mark it, invalidate the cache and go to sleep.
\<close>

definition schedule_broadcast :: "rat \<Rightarrow> system \<Rightarrow> system" where
  "schedule_broadcast now s =
     (if pending s then s
      else s\<lparr> pending := True,
              state_cache := invalidate (state_cache s),
              wake_at := Some (now + BROADCAST_DEBOUNCE) \<rparr>)"

text \<open>
  Lines 339 to 343, when the sleep is over at loop time \<open>now\<close>. An exception of the
  snapshot build ends the task after the flag is cleared. The sends of
  \<^verbatim>\<open>manager.broadcast\<close> are not timed here, so \<open>last_broadcast\<close>, which nothing reads,
  gets the time of the wake-up.
\<close>

definition schedule_broadcast_wake :: "'f libs \<Rightarrow> rat \<Rightarrow> system \<Rightarrow> system" where
  "schedule_broadcast_wake L now s =
     (let s1 = s\<lparr> pending := False, wake_at := None \<rparr>;
          r = get_state_bytes L now (globs s1) (state_cache s1)
      in case fst r of
           Inl e \<Rightarrow> s1\<lparr> state_cache := snd r \<rparr>
         | Inr message \<Rightarrow>
             s1\<lparr> state_cache := snd r,
                 broadcasts := broadcasts s1 @ [message],
                 last_broadcast := now \<rparr>)"

text \<open>\<^verbatim>\<open>text.partition(' ')[2]\<close>: what follows the first space.\<close>

definition after_space :: "string \<Rightarrow> string" where
  "after_space t = (case dropWhile (\<lambda>c. c \<noteq> CHR '' '') t of [] \<Rightarrow> [] | c # r \<Rightarrow> r)"

text \<open>\<^verbatim>\<open>.replace("  ", "&nbsp;&nbsp;")\<close> and \<^verbatim>\<open>.replace("\n", "<br>")\<close>.\<close>

fun replace_spaces :: "string \<Rightarrow> string" where
  "replace_spaces (a # b # r) =
     (if a = CHR '' '' \<and> b = CHR '' '' then ''&nbsp;&nbsp;'' @ replace_spaces r
      else a # replace_spaces (b # r))"
| "replace_spaces xs = xs"

definition replace_newlines :: "string \<Rightarrow> string" where
  "replace_newlines t = concat (map (\<lambda>c. if c = CHR 0x0A then ''<br>'' else [c]) t)"

text \<open>
  \<^verbatim>\<open>atur_handler\<close> on a message with the given text, at loop time \<open>now\<close>; the task it
  creates starts at once.
\<close>

definition atur_handler :: "rat \<Rightarrow> string \<Rightarrow> system \<Rightarrow> system" where
  "atur_handler now message_text s =
     (let text = after_space message_text in
      if text \<noteq> [] then
        schedule_broadcast now
          (s\<lparr> globs := (globs s)\<lparr> treasury_info := replace_newlines (replace_spaces text) \<rparr> \<rparr>)
      else s)"

text \<open>What the event loop runs next.\<close>

datatype event =
    Atur string
  | PriceFetched pyval
  | RateFetched "string option" string
  | GetState
  | Wake

text \<open>
  One step of the event loop at loop time \<open>now\<close>: a command message, an iteration of one
  of the two pollers with what its fetch returned, a reader of the snapshot
  (\<^verbatim>\<open>GET /api/state\<close> or a new subscriber), or the end of the debounce sleep, which can
  happen only once its deadline has passed.
\<close>

definition step :: "'f libs \<Rightarrow> rat \<times> event \<Rightarrow> system \<Rightarrow> system" where
  "step L te s =
     (let now = fst te in
      case snd te of
        Atur t \<Rightarrow> atur_handler now t s
      | PriceFetched result \<Rightarrow>
          (let r = api_loop_iter L result (globs s, api_errors s);
               s1 = s\<lparr> globs := fst (fst r), api_errors := snd (fst r) \<rparr>
           in if snd (snd r) then schedule_broadcast now s1 else s1)
      | RateFetched price wib \<Rightarrow>
          (let r = usd_idr_loop_iter price wib (globs s);
               s1 = s\<lparr> globs := fst r \<rparr>
           in if snd (snd r) then schedule_broadcast now s1 else s1)
      | GetState \<Rightarrow>
          s\<lparr> state_cache := snd (get_state_bytes L now (globs s) (state_cache s)) \<rparr>
      | Wake \<Rightarrow>
          (case wake_at s of
             None \<Rightarrow> s
           | Some t \<Rightarrow> if t \<le> now then schedule_broadcast_wake L now s else s))"

fun run :: "'f libs \<Rightarrow> (rat \<times> event) list \<Rightarrow> system \<Rightarrow> system" where
  "run L [] s = s"
| "run L (te # tes) s = run L tes (step L te s)"

section \<open>A stand-in for the library functions\<close>

text \<open>
  To run the model on concrete inputs the library parameters need values. This instance
  computes with exact rationals where Python rounds to a double, reads only strings of
  decimal digits as numbers, parses no date, and writes compact JSON in which a float
  appears with four decimals. The theorems below hold for every instance.
\<close>

definition py_trunc :: "rat \<Rightarrow> int" where
  "py_trunc q = (if q \<ge> 0 then \<lfloor>q\<rfloor> else \<lceil>q\<rceil>)"

definition digits_value :: "string \<Rightarrow> nat" where
  "digits_value s =
     foldl (\<lambda>a c. 10 * a + length (takeWhile (\<lambda>d. d \<noteq> c) ''0123456789'')) 0 s"

definition round_half_even :: "rat \<Rightarrow> int" where
  "round_half_even m =
     (let f = \<lfloor>m\<rfloor>; r = m - of_int f in
      if r < 1 / 2 then f
      else if r > 1 / 2 then f + 1
      else if even f then f else f + 1)"

definition fixed4 :: "rat \<Rightarrow> string" where
  "fixed4 q =
     (let n = round_half_even (\<bar>q\<bar> * 10000) in
      (if q < 0 then [CHR ''-''] else []) @ comma_int (n div 10000) @ [CHR ''.'']
        @ tl (dec_nat (nat (10000 + n mod 10000))))"

definition json_quote :: "string \<Rightarrow> string" where
  "json_quote s =
     CHR 0x22 # concat (map (\<lambda>c. if c = CHR 0x22 \<or> c = CHR 0x5C then [CHR 0x5C, c] else [c]) s)
       @ [CHR 0x22]"

fun join_comma :: "string list \<Rightarrow> string" where
  "join_comma [] = []"
| "join_comma [x] = x"
| "join_comma (x # y # r) = x @ [CHR '',''] @ join_comma (y # r)"

fun json_compact :: "pyval \<Rightarrow> string" where
  "json_compact PNone = ''null''"
| "json_compact (PBool b) = (if b then ''true'' else ''false'')"
| "json_compact (PInt n) = (if n < 0 then [CHR ''-''] else []) @ dec_nat (nat \<bar>n\<bar>)"
| "json_compact (PFloat q) = fixed4 q"
| "json_compact (PStr s) = json_quote s"
| "json_compact (PList xs) = ''['' @ join_comma (map json_compact xs) @ '']''"
| "json_compact (PDict kvs) =
     ''{'' @ join_comma (map (\<lambda>kv. json_quote (fst kv) @ '':'' @ json_compact (snd kv)) kvs)
       @ ''}''"

definition test_libs :: "rat libs" where
  "test_libs =
     \<lparr> int_of_float =
         (\<lambda>v. case v of
                 PInt n \<Rightarrow> Inr n
               | PBool b \<Rightarrow> Inr (if b then 1 else 0)
               | PFloat q \<Rightarrow> Inr (py_trunc q)
               | PStr s \<Rightarrow>
                   if s \<noteq> [] \<and> list_all (\<lambda>c. c \<in> set ''0123456789'') s
                   then Inr (int (digits_value s)) else Inl ValueError
               | _ \<Rightarrow> Inl TypeError),
       true_div =
         (\<lambda>m v. case num_val v of None \<Rightarrow> Inl TypeError | Some q \<Rightarrow> Inr (of_int m / q)),
       profit_val =
         (\<lambda>gram v p. case num_val v of
                        None \<Rightarrow> Inl TypeError
                      | Some q \<Rightarrow> Inr (py_trunc (gram * q - of_int p))),
       format_gram = fixed4,
       format_float_comma = fixed4,
       strptime = (\<lambda>d. None),
       py_str = (\<lambda>v. case v of PStr s \<Rightarrow> s | _ \<Rightarrow> json_compact v),
       json_dumps_bytes = json_compact \<rparr>"

section \<open>Reading stored ticks\<close>

definition item_int :: "pydict \<Rightarrow> string \<Rightarrow> int option" where
  "item_int h k = (case map_of h k of Some (PInt n) \<Rightarrow> Some n | _ \<Rightarrow> None)"

definition item_str :: "pydict \<Rightarrow> string \<Rightarrow> string option" where
  "item_str h k = (case map_of h k of Some (PStr s) \<Rightarrow> Some s | _ \<Rightarrow> None)"

text \<open>The buy rate of the newest stored tick, if there is one.\<close>

definition prev_buy :: "pydict list \<Rightarrow> int option" where
  "prev_buy hs = (if hs = [] then None else item_int (last hs) ''buying_rate'')"

text \<open>The \<^verbatim>\<open>updated_at\<close> a fetch result carries.\<close>

definition updated_at_of :: "pyval \<Rightarrow> pyval option" where
  "updated_at_of result =
     (case py_get result ''data'' (PDict []) of
        Inl e \<Rightarrow> None
      | Inr data \<Rightarrow> (case py_get data ''updated_at'' PNone of Inl e \<Rightarrow> None | Inr u \<Rightarrow> Some u))"

definition last_buy_inv :: "globals \<Rightarrow> bool" where
  "last_buy_inv g = (last_buy g = prev_buy (history g))"

text \<open>A well-formed fetch result, as the price source sends it.\<close>

definition price_result :: "pyval \<Rightarrow> pyval \<Rightarrow> pyval \<Rightarrow> pyval" where
  "price_result buy sell upd =
     PDict [(''data'', PDict [(''buying_rate'', buy), (''selling_rate'', sell),
                              (''updated_at'', upd)])]"

text \<open>A dedup set at its cap.\<close>

definition five_thousand_ids :: "hkey fset" where
  "five_thousand_ids = fset_of_list (map (\<lambda>n. KNum (of_nat n)) [0 ..< 5000])"

text \<open>A registry at the capacity ceiling, the subscribers being numbers.\<close>

definition five_hundred_subscribers :: "nat fset" where
  "five_hundred_subscribers = fset_of_list [0 ..< 500]"

text \<open>
  The retry delay in the words of the specification: the error count times a base,
  capped; base and cap are the constants of the loop's exception handler.
\<close>

definition spec_retry_delay :: "nat \<Rightarrow> rat" where
  "spec_retry_delay errorCount = min (of_nat errorCount * (1 / 10)) 2"

text \<open>The shape of the entries that the two pollers store.\<close>

definition stored_shape :: "globals \<Rightarrow> bool" where
  "stored_shape g =
     ((\<forall>h \<in> set (history g). \<exists>b s lb upd k.
          h = price_item b s (tick_status lb b) (tick_diff lb b) upd \<and> py_hash_key upd = Inr k)
      \<and> (\<forall>h \<in> set (usd_idr_history g). \<exists>q w. h = [(''price'', PStr q), (''time'', PStr w)]))"

text \<open>
  A burst inside one debounce window: a new rate at time 0, a reader of the snapshot 2 ms
  later, a command that sets the annotation 4 ms after the start, and the end of the
  sleep at 8 ms. The second trace is the same burst without the reader. The two
  documents are the snapshot after the first change and after the second.
\<close>

definition burst_with_reader :: "(rat \<times> event) list" where
  "burst_with_reader =
     [(0, RateFetched (Some ''16,250.00'') ''10:00:00''),
      (2 / 1000, GetState),
      (4 / 1000, Atur ''/atur Harga naik''),
      (8 / 1000, Wake)]"

definition burst_without_reader :: "(rat \<times> event) list" where
  "burst_without_reader =
     [(0, RateFetched (Some ''16,250.00'') ''10:00:00''),
      (4 / 1000, Atur ''/atur Harga naik''),
      (8 / 1000, Wake)]"

definition doc_after_first_change :: pyval where
  "doc_after_first_change =
     PDict [(''history'', PList []),
            (''usd_idr_history'',
               PList [PDict [(''price'', PStr ''16,250.00''), (''time'', PStr ''10:00:00'')]]),
            (''treasury_info'', PStr ''Belum ada info treasury.'')]"

definition doc_after_last_change :: pyval where
  "doc_after_last_change =
     PDict [(''history'', PList []),
            (''usd_idr_history'',
               PList [PDict [(''price'', PStr ''16,250.00''), (''time'', PStr ''10:00:00'')]]),
            (''treasury_info'', PStr ''Harga naik'')]"








section \<open>The price poll loop: recorded ticks\<close>

lemma status_distinct:
  "STATUS_UP \<noteq> STATUS_DOWN" "STATUS_UP \<noteq> STATUS_FLAT" "STATUS_DOWN \<noteq> STATUS_FLAT"
  "STATUS_DOWN \<noteq> STATUS_UP" "STATUS_FLAT \<noteq> STATUS_UP" "STATUS_FLAT \<noteq> STATUS_DOWN"
  by (simp_all add: STATUS_UP_def STATUS_DOWN_def STATUS_FLAT_def)

lemma deque_append_last: "0 < n \<Longrightarrow> deque_append n d x \<noteq> [] \<and> last (deque_append n d x) = x"
  by (cases d) (auto simp: deque_append_def Let_def)

lemma deque_append_length: "length d \<le> n \<Longrightarrow> length (deque_append n d x) \<le> n"
  by (auto simp: deque_append_def Let_def)

lemma deque_append_full: "0 < n \<Longrightarrow> length d = n \<Longrightarrow> deque_append n d x = tl d @ [x]"
  by (cases d) (auto simp: deque_append_def Let_def)

lemma deque_append_room: "length d < n \<Longrightarrow> deque_append n d x = d @ [x]"
  by (auto simp: deque_append_def Let_def)

lemma api_loop_apply_cases:
  assumes "api_loop_apply L r g = Inr (g', ch)"
  shows "(ch = False \<and> g' = g) \<or>
         (\<exists>b s upd k. ch = True \<and> g' = store_tick b s upd k g \<and> k |\<notin>| shown_updates g
            \<and> updated_at_of r = Some upd \<and> py_hash_key upd = Inr k \<and> truthy upd)"
  using assms unfolding api_loop_apply_def ebind_def updated_at_of_def
  by (auto split: sum.splits if_splits) blast

lemma api_loop_apply_recorded:
  assumes "api_loop_apply L r g = Inr (g', True)"
  shows "\<exists>b s upd k. g' = store_tick b s upd k g \<and> k |\<notin>| shown_updates g
            \<and> updated_at_of r = Some upd \<and> py_hash_key upd = Inr k \<and> truthy upd"
  using api_loop_apply_cases[OF assms] by auto

lemma store_tick_history:
  "history (store_tick b s upd k g) =
     deque_append MAX_HISTORY (history g)
       (price_item b s (tick_status (last_buy g) b) (tick_diff (last_buy g) b) upd)"
  by (simp add: store_tick_def Let_def)

lemma store_tick_last_buy: "last_buy (store_tick b s upd k g) = Some b"
  by (simp add: store_tick_def Let_def)

lemma store_tick_usd: "usd_idr_history (store_tick b s upd k g) = usd_idr_history g"
  by (simp add: store_tick_def Let_def)

lemma store_tick_shown:
  "shown_updates (store_tick b s upd k g) =
     (if fcard (finsert k (shown_updates g)) > 5000 then {|k|} else finsert k (shown_updates g))"
  by (simp add: store_tick_def Let_def)

lemma store_tick_inv: "last_buy_inv (store_tick b s upd k g)"
  using deque_append_last[of MAX_HISTORY "history g"]
  by (simp add: last_buy_inv_def prev_buy_def store_tick_history store_tick_last_buy
      MAX_HISTORY_def item_int_def price_item_def)

lemma api_loop_iter_fst:
  "fst (fst (api_loop_iter L r st)) = fst st \<or>
   (\<exists>g'. api_loop_apply L r (fst st) = Inr (g', True) \<and> fst (fst (api_loop_iter L r st)) = g')"
  by (auto simp: api_loop_iter_def Let_def split: sum.splits dest: api_loop_apply_cases)

lemma api_loop_iter_inv:
  "last_buy_inv (fst st) \<Longrightarrow> last_buy_inv (fst (fst (api_loop_iter L r st)))"
  using api_loop_iter_fst[of L r st] by (auto simp: store_tick_inv dest!: api_loop_apply_recorded)

lemma api_loop_inv: "last_buy_inv (fst st) \<Longrightarrow> last_buy_inv (fst (api_loop L rs st))"
  by (induction rs arbitrary: st) (auto simp: api_loop_iter_inv)

lemma init_inv: "last_buy_inv init_globals"
  by (simp add: last_buy_inv_def init_globals_def prev_buy_def)

lemma tick_status_diff:
  "(case lb of
      None \<Rightarrow> tick_status lb b = STATUS_FLAT \<and> tick_diff lb b = 0
    | Some p \<Rightarrow> tick_diff lb b = b - p
        \<and> (tick_status lb b = STATUS_UP \<longleftrightarrow> p < b)
        \<and> (tick_status lb b = STATUS_DOWN \<longleftrightarrow> b < p)
        \<and> (tick_status lb b = STATUS_FLAT \<longleftrightarrow> b = p))"
  by (auto simp: tick_status_def tick_diff_def status_distinct split: option.splits)

text \<open>
  C3. A tick that the loop records after any sequence of fetch results carries the status
  and the difference of its buy rate against the buy rate of the newest tick stored
  before it: up exactly when greater, down exactly when less, flat exactly when equal,
  and flat with difference 0 when nothing was stored before.
\<close>

theorem recorded_tick_status_diff:
  assumes run: "api_loop L rs (init_globals, 0) = (g, ce)"
      and rec: "api_loop_apply L r g = Inr (g', True)"
  shows "history g' \<noteq> [] \<and>
         (\<exists>buy. item_int (last (history g')) ''buying_rate'' = Some buy \<and>
            (case prev_buy (history g) of
               None \<Rightarrow> item_str (last (history g')) ''status'' = Some STATUS_FLAT
                        \<and> item_int (last (history g')) ''diff'' = Some 0
             | Some p \<Rightarrow> item_int (last (history g')) ''diff'' = Some (buy - p)
                  \<and> (item_str (last (history g')) ''status'' = Some STATUS_UP \<longleftrightarrow> p < buy)
                  \<and> (item_str (last (history g')) ''status'' = Some STATUS_DOWN \<longleftrightarrow> buy < p)
                  \<and> (item_str (last (history g')) ''status'' = Some STATUS_FLAT \<longleftrightarrow> buy = p)))"
proof -
  have inv: "last_buy g = prev_buy (history g)"
    using api_loop_inv[of "(init_globals, 0)" L rs] init_inv run
    by (simp add: last_buy_inv_def)
  obtain b s upd k where g': "g' = store_tick b s upd k g"
    using api_loop_apply_recorded[OF rec] by blast
  let ?item = "price_item b s (tick_status (last_buy g) b) (tick_diff (last_buy g) b) upd"
  have last: "history g' \<noteq> [] \<and> last (history g') = ?item"
    using deque_append_last[of MAX_HISTORY "history g" ?item]
    by (simp add: g' store_tick_history MAX_HISTORY_def)
  have fields: "item_int ?item ''buying_rate'' = Some b"
    "item_int ?item ''diff'' = Some (tick_diff (last_buy g) b)"
    "item_str ?item ''status'' = Some (tick_status (last_buy g) b)"
    by (simp_all add: item_int_def item_str_def price_item_def)
  show ?thesis
    using last fields tick_status_diff[of "last_buy g" b] inv
    by (auto split: option.splits)
qed

theorem recorded_tick_status_diff_witness:
  "api_loop test_libs [price_result (PInt 1000000) (PInt 990000) (PStr ''U1'')] (init_globals, 0)
     = (store_tick 1000000 990000 (PStr ''U1'') (KStr ''U1'') init_globals, 0)
   \<and> api_loop_apply test_libs (price_result (PInt 1050000) (PInt 1040000) (PStr ''U2''))
        (store_tick 1000000 990000 (PStr ''U1'') (KStr ''U1'') init_globals)
     = Inr (store_tick 1050000 1040000 (PStr ''U2'') (KStr ''U2'')
              (store_tick 1000000 990000 (PStr ''U1'') (KStr ''U1'') init_globals), True)
   \<and> item_str (last (history (store_tick 1050000 1040000 (PStr ''U2'') (KStr ''U2'')
              (store_tick 1000000 990000 (PStr ''U1'') (KStr ''U1'') init_globals)))) ''status''
       = Some STATUS_UP
   \<and> item_int (last (history (store_tick 1050000 1040000 (PStr ''U2'') (KStr ''U2'')
              (store_tick 1000000 990000 (PStr ''U1'') (KStr ''U1'') init_globals)))) ''diff''
       = Some 50000"
proof -
  let ?g1 = "store_tick 1000000 990000 (PStr ''U1'') (KStr ''U1'') init_globals"
  let ?g2 = "store_tick 1050000 1040000 (PStr ''U2'') (KStr ''U2'') ?g1"
  have h1: "api_loop test_libs [price_result (PInt 1000000) (PInt 990000) (PStr ''U1'')]
              (init_globals, 0) = (?g1, 0)"
    by (simp add: api_loop_iter_def api_loop_apply_def ebind_def price_result_def test_libs_def
        init_globals_def Let_def)
  have h2: "api_loop_apply test_libs (price_result (PInt 1050000) (PInt 1040000) (PStr ''U2'')) ?g1
              = Inr (?g2, True)"
    by (simp add: api_loop_apply_def ebind_def price_result_def test_libs_def
        init_globals_def store_tick_def Let_def)
  have prev: "prev_buy (history ?g1) = Some 1000000"
    by (simp add: prev_buy_def store_tick_def Let_def deque_append_def init_globals_def
        MAX_HISTORY_def item_int_def price_item_def)
  have buy: "item_int (last (history ?g2)) ''buying_rate'' = Some 1050000"
    by (simp add: store_tick_def Let_def deque_append_def init_globals_def
        MAX_HISTORY_def item_int_def price_item_def)
  show ?thesis
    using h1 h2 recorded_tick_status_diff[OF h1 h2] prev buy by auto
qed





section \<open>Bounds on the histories and on the dedup set\<close>

lemma usd_idr_loop_iter_cases:
  "(snd (snd (usd_idr_loop_iter p w g)) = False \<and> fst (usd_idr_loop_iter p w g) = g) \<or>
   (\<exists>item. snd (snd (usd_idr_loop_iter p w g)) = True \<and>
      fst (usd_idr_loop_iter p w g) =
        g\<lparr> usd_idr_history := deque_append MAX_USD_HISTORY (usd_idr_history g) item \<rparr>)"
  by (auto simp: usd_idr_loop_iter_def split: option.splits sum.splits)

lemma schedule_broadcast_globs: "globs (schedule_broadcast now s) = globs s"
  by (simp add: schedule_broadcast_def)

lemma schedule_broadcast_wake_globs: "globs (schedule_broadcast_wake L now s) = globs s"
  by (simp add: schedule_broadcast_wake_def Let_def split: sum.splits)

lemma step_globs_cases:
  "globs (step L te s) = globs s
   \<or> (\<exists>r. globs (step L te s) = fst (fst (api_loop_iter L r (globs s, api_errors s))))
   \<or> (\<exists>p w. globs (step L te s) = fst (usd_idr_loop_iter p w (globs s)))
   \<or> (\<exists>t. globs (step L te s) = (globs s)\<lparr> treasury_info := t \<rparr>)"
proof (cases "snd te")
  case (Atur t)
  then show ?thesis
    by (auto simp: step_def Let_def atur_handler_def schedule_broadcast_globs)
next
  case (PriceFetched r)
  then have "globs (step L te s) = fst (fst (api_loop_iter L r (globs s, api_errors s)))"
    by (simp add: step_def Let_def schedule_broadcast_globs)
  then show ?thesis by blast
next
  case (RateFetched p w)
  then have "globs (step L te s) = fst (usd_idr_loop_iter p w (globs s))"
    by (simp add: step_def Let_def schedule_broadcast_globs)
  then show ?thesis by blast
next
  case GetState
  then show ?thesis by (simp add: step_def Let_def)
next
  case Wake
  then show ?thesis
    by (simp add: step_def Let_def schedule_broadcast_wake_globs split: option.splits)
qed

text \<open>An invariant of the module state that every writer keeps holds along every run.\<close>

lemma run_globs_invariant:
  assumes api: "\<And>g r ce. P g \<Longrightarrow> P (fst (fst (api_loop_iter L r (g, ce))))"
      and usd: "\<And>g p w. P g \<Longrightarrow> P (fst (usd_idr_loop_iter p w g))"
      and info: "\<And>g t. P g \<Longrightarrow> P (g\<lparr> treasury_info := t \<rparr>)"
      and init: "P (globs s)"
  shows "P (globs (run L tes s))"
  using init
proof (induction tes arbitrary: s)
  case Nil
  then show ?case by simp
next
  case (Cons te tes)
  have "P (globs (step L te s))"
    using step_globs_cases[of L te s] Cons.prems api usd info by auto
  then show ?case using Cons.IH by simp
qed

lemma api_loop_iter_history_bound:
  assumes "length (history g) \<le> MAX_HISTORY"
  shows "length (history (fst (fst (api_loop_iter L r (g, ce))))) \<le> MAX_HISTORY"
  using api_loop_iter_fst[of L r "(g, ce)"] assms
  by (auto simp: store_tick_history deque_append_length dest!: api_loop_apply_recorded)

lemma api_loop_iter_usd: "usd_idr_history (fst (fst (api_loop_iter L r (g, ce)))) = usd_idr_history g"
  using api_loop_iter_fst[of L r "(g, ce)"]
  by (auto simp: store_tick_usd dest!: api_loop_apply_recorded)

lemma usd_idr_loop_iter_history: "history (fst (usd_idr_loop_iter p w g)) = history g"
  using usd_idr_loop_iter_cases[of p w g] by auto

lemma usd_idr_loop_iter_bound:
  assumes "length (usd_idr_history g) \<le> MAX_USD_HISTORY"
  shows "length (usd_idr_history (fst (usd_idr_loop_iter p w g))) \<le> MAX_USD_HISTORY"
  using usd_idr_loop_iter_cases[of p w g] assms by (auto simp: deque_append_length)

lemma deque_append_evicts:
  assumes "0 < n" and "length d \<le> n"
  shows "deque_append n d x = (if length d = n then tl d else d) @ [x]"
  using assms by (cases d) (auto simp: deque_append_def Let_def)

text \<open>
  C6. Along every run of the event loop the price history holds at most 1441 ticks and
  the rate history at most 11. An append to a full history removes exactly the oldest
  entry and keeps the others in their order; an append to a history that is not full
  removes nothing.
\<close>

theorem history_windows_bounded:
  assumes hb: "length (history (globs s)) \<le> MAX_HISTORY"
      and ub: "length (usd_idr_history (globs s)) \<le> MAX_USD_HISTORY"
  shows "length (history (globs (run L tes s))) \<le> 1441
       \<and> length (usd_idr_history (globs (run L tes s))) \<le> 11
       \<and> (\<forall>r g'. api_loop_apply L r (globs s) = Inr (g', True) \<longrightarrow>
            history g' =
              (if length (history (globs s)) = 1441 then tl (history (globs s))
               else history (globs s)) @ [last (history g')])
       \<and> (\<forall>p w g' d. usd_idr_loop_iter p w (globs s) = (g', d, True) \<longrightarrow>
            usd_idr_history g' =
              (if length (usd_idr_history (globs s)) = 11 then tl (usd_idr_history (globs s))
               else usd_idr_history (globs s)) @ [last (usd_idr_history g')])"
proof -
  have a: "length (history (globs (run L tes s))) \<le> MAX_HISTORY"
    by (rule run_globs_invariant[where P = "\<lambda>g. length (history g) \<le> MAX_HISTORY"])
       (simp_all add: api_loop_iter_history_bound usd_idr_loop_iter_history hb)
  have b: "length (usd_idr_history (globs (run L tes s))) \<le> MAX_USD_HISTORY"
    by (rule run_globs_invariant[where P = "\<lambda>g. length (usd_idr_history g) \<le> MAX_USD_HISTORY"])
       (simp_all add: api_loop_iter_usd usd_idr_loop_iter_bound ub)
  have c: "history g' =
              (if length (history (globs s)) = 1441 then tl (history (globs s))
               else history (globs s)) @ [last (history g')]"
    if rec: "api_loop_apply L r (globs s) = Inr (g', True)" for r g'
  proof -
    obtain b' s' upd k where "g' = store_tick b' s' upd k (globs s)"
      using api_loop_apply_recorded[OF rec] by blast
    then show ?thesis
      using hb by (simp add: store_tick_history deque_append_evicts MAX_HISTORY_def)
  qed
  have d: "usd_idr_history g' =
              (if length (usd_idr_history (globs s)) = 11 then tl (usd_idr_history (globs s))
               else usd_idr_history (globs s)) @ [last (usd_idr_history g')]"
    if "usd_idr_loop_iter p w (globs s) = (g', dl, True)" for p w g' dl
    using usd_idr_loop_iter_cases[of p w "globs s"] that ub
    by (auto simp: deque_append_evicts MAX_USD_HISTORY_def)
  show ?thesis
    using a b c d unfolding MAX_HISTORY_def MAX_USD_HISTORY_def by blast
qed

theorem history_windows_bounded_witness:
  "length (history (globs (init_system\<lparr> globs := init_globals\<lparr> history :=
       replicate 1441 (price_item 1000000 990000 STATUS_FLAT 0 (PStr ''U0'')) \<rparr> \<rparr>))) \<le> MAX_HISTORY
   \<and> length (usd_idr_history (globs (init_system\<lparr> globs := init_globals\<lparr> history :=
       replicate 1441 (price_item 1000000 990000 STATUS_FLAT 0 (PStr ''U0'')) \<rparr> \<rparr>))) \<le> MAX_USD_HISTORY
   \<and> api_loop_apply test_libs (price_result (PInt 1050000) (PInt 1040000) (PStr ''U1''))
        (init_globals\<lparr> history :=
           replicate 1441 (price_item 1000000 990000 STATUS_FLAT 0 (PStr ''U0'')) \<rparr>)
      = Inr (store_tick 1050000 1040000 (PStr ''U1'') (KStr ''U1'')
              (init_globals\<lparr> history :=
                 replicate 1441 (price_item 1000000 990000 STATUS_FLAT 0 (PStr ''U0'')) \<rparr>), True)
   \<and> history (store_tick 1050000 1040000 (PStr ''U1'') (KStr ''U1'')
              (init_globals\<lparr> history :=
                 replicate 1441 (price_item 1000000 990000 STATUS_FLAT 0 (PStr ''U0'')) \<rparr>))
      = replicate 1440 (price_item 1000000 990000 STATUS_FLAT 0 (PStr ''U0''))
          @ [last (history (store_tick 1050000 1040000 (PStr ''U1'') (KStr ''U1'')
              (init_globals\<lparr> history :=
                 replicate 1441 (price_item 1000000 990000 STATUS_FLAT 0 (PStr ''U0'')) \<rparr>)))]
   \<and> length (history (globs (run test_libs
        [(0, PriceFetched (price_result (PInt 1050000) (PInt 1040000) (PStr ''U1'')))]
        (init_system\<lparr> globs := init_globals\<lparr> history :=
           replicate 1441 (price_item 1000000 990000 STATUS_FLAT 0 (PStr ''U0'')) \<rparr> \<rparr>)))) \<le> 1441"
proof -
  let ?g = "init_globals\<lparr> history :=
              replicate 1441 (price_item 1000000 990000 STATUS_FLAT 0 (PStr ''U0'')) \<rparr>"
  let ?s = "init_system\<lparr> globs := ?g \<rparr>"
  let ?r = "price_result (PInt 1050000) (PInt 1040000) (PStr ''U1'')"
  have globs: "globs ?s = ?g" by simp
  have hb: "length (history (globs ?s)) \<le> MAX_HISTORY"
    by (simp add: MAX_HISTORY_def)
  have ub: "length (usd_idr_history (globs ?s)) \<le> MAX_USD_HISTORY"
    by (simp add: init_globals_def)
  have rec: "api_loop_apply test_libs ?r (globs ?s)
      = Inr (store_tick 1050000 1040000 (PStr ''U1'') (KStr ''U1'') ?g, True)"
    by (simp add: api_loop_apply_def ebind_def price_result_def test_libs_def init_globals_def)
  have tl: "tl (replicate 1441 x) = replicate 1440 x" for x :: pydict
    by (simp add: tl_replicate)
  note inst = history_windows_bounded[OF hb ub, of test_libs "[(0, PriceFetched ?r)]"]
  show ?thesis
    using hb ub rec inst tl by (simp only: globs) simp
qed

lemma store_tick_shown_bound: "fcard (shown_updates (store_tick b s upd k g)) \<le> 5000"
  by (simp add: store_tick_shown fcard_finsert_if fcard_fempty)

lemma api_loop_iter_shown_bound:
  assumes "fcard (shown_updates g) \<le> 5000"
  shows "fcard (shown_updates (fst (fst (api_loop_iter L r (g, ce))))) \<le> 5000"
  using api_loop_iter_fst[of L r "(g, ce)"] assms
  by (auto simp: store_tick_shown_bound dest!: api_loop_apply_recorded)

lemma usd_idr_loop_iter_shown: "shown_updates (fst (usd_idr_loop_iter p w g)) = shown_updates g"
  using usd_idr_loop_iter_cases[of p w g] by auto

text \<open>
  C7. Along every run of the event loop the dedup set holds at most 5000 ids. A recorded
  tick adds its id; when the set then holds more than 5000, it is replaced by the set of
  that one id.
\<close>

theorem dedup_set_bounded:
  assumes sb: "fcard (shown_updates (globs s)) \<le> 5000"
  shows "fcard (shown_updates (globs (run L tes s))) \<le> 5000
       \<and> (\<forall>r g'. api_loop_apply L r (globs s) = Inr (g', True) \<longrightarrow>
            (\<exists>upd k. updated_at_of r = Some upd \<and> py_hash_key upd = Inr k \<and>
               shown_updates g' =
                 (if fcard (finsert k (shown_updates (globs s))) > 5000 then {|k|}
                  else finsert k (shown_updates (globs s)))))"
proof -
  have a: "fcard (shown_updates (globs (run L tes s))) \<le> 5000"
    by (rule run_globs_invariant[where P = "\<lambda>g. fcard (shown_updates g) \<le> 5000"])
       (simp_all add: api_loop_iter_shown_bound usd_idr_loop_iter_shown sb)
  have b: "\<exists>upd k. updated_at_of r = Some upd \<and> py_hash_key upd = Inr k \<and>
               shown_updates g' =
                 (if fcard (finsert k (shown_updates (globs s))) > 5000 then {|k|}
                  else finsert k (shown_updates (globs s)))"
    if rec: "api_loop_apply L r (globs s) = Inr (g', True)" for r g'
    using api_loop_apply_recorded[OF rec] by (auto simp: store_tick_shown)
  show ?thesis using a b by blast
qed

lemma fcard_five_thousand_ids: "fcard five_thousand_ids = 5000"
proof -
  have "inj_on (\<lambda>n::nat. KNum (of_nat n)) {0 ..< 5000}"
    by (simp add: inj_on_def)
  then have "card ((\<lambda>n::nat. KNum (of_nat n)) ` {0 ..< 5000}) = 5000"
    by (simp add: card_image)
  then show ?thesis
    unfolding five_thousand_ids_def
    by (simp add: fcard.rep_eq fset_of_list.rep_eq)
qed

theorem dedup_set_bounded_witness:
  "fcard (shown_updates (globs (init_system\<lparr> globs :=
       init_globals\<lparr> shown_updates := five_thousand_ids \<rparr> \<rparr>))) \<le> 5000
   \<and> api_loop_apply test_libs (price_result (PInt 1050000) (PInt 1040000) (PStr ''U1''))
        (init_globals\<lparr> shown_updates := five_thousand_ids \<rparr>)
      = Inr (store_tick 1050000 1040000 (PStr ''U1'') (KStr ''U1'')
              (init_globals\<lparr> shown_updates := five_thousand_ids \<rparr>), True)
   \<and> shown_updates (store_tick 1050000 1040000 (PStr ''U1'') (KStr ''U1'')
              (init_globals\<lparr> shown_updates := five_thousand_ids \<rparr>)) = {|KStr ''U1''|}"
proof -
  let ?g = "init_globals\<lparr> shown_updates := five_thousand_ids \<rparr>"
  let ?s = "init_system\<lparr> globs := ?g \<rparr>"
  let ?r = "price_result (PInt 1050000) (PInt 1040000) (PStr ''U1'')"
  have globs: "globs ?s = ?g" by simp
  have sb: "fcard (shown_updates (globs ?s)) \<le> 5000"
    by (simp add: fcard_five_thousand_ids)
  have new: "KStr ''U1'' |\<notin>| five_thousand_ids"
    by (auto simp: five_thousand_ids_def fset_of_list_elem)
  have rec: "api_loop_apply test_libs ?r (globs ?s)
      = Inr (store_tick 1050000 1040000 (PStr ''U1'') (KStr ''U1'') ?g, True)"
    using new
    by (simp add: api_loop_apply_def ebind_def price_result_def test_libs_def)
  have upd: "updated_at_of ?r = Some (PStr ''U1'')"
    by (simp add: updated_at_of_def price_result_def)
  have over: "fcard (finsert (KStr ''U1'') five_thousand_ids) > 5000"
    using new by (simp add: fcard_finsert_disjoint fcard_five_thousand_ids)
  note inst = dedup_set_bounded[OF sb, of test_libs "[]"]
  obtain u k where u: "updated_at_of ?r = Some u" and k: "py_hash_key u = Inr k"
    and sh: "shown_updates (store_tick 1050000 1040000 (PStr ''U1'') (KStr ''U1'') ?g) =
       (if fcard (finsert k (shown_updates (globs ?s))) > 5000 then {|k|}
        else finsert k (shown_updates (globs ?s)))"
    using inst[THEN conjunct2, rule_format, OF rec] by blast
  have "u = PStr ''U1''" using u upd by simp
  then have "k = KStr ''U1''" using k by simp
  then have "shown_updates (store_tick 1050000 1040000 (PStr ''U1'') (KStr ''U1'') ?g)
      = {|KStr ''U1''|}"
    using sh over by simp
  then show ?thesis
    using sb[unfolded globs] rec[unfolded globs] by simp
qed

section \<open>The retry delay of the price poll loop\<close>

lemma api_loop_iter_failed:
  "api_loop_iter L PNone (g, ce) = ((g, ce + 1), API_POLL_INTERVAL, False)"
  by (simp add: api_loop_iter_def Let_def)

lemma api_loop_iter_delay:
  "fst (snd (api_loop_iter L r st)) = API_POLL_INTERVAL
   \<or> (fst (snd (api_loop_iter L r st)) = 1 / 10 \<and> snd (fst (api_loop_iter L r st)) = 1)"
  by (simp add: api_loop_iter_def Let_def split: sum.splits prod.splits)

text \<open>
  C2. Five fetches in a row that fail: the counter goes up to 5, and each sleep before
  the retry is the poll interval of 20 ms, where the specification's formula gives
  0.1, 0.2, 0.3, 0.4, 0.5 s. No iteration of the loop ever sleeps longer than 0.1 s.
\<close>

theorem failed_fetch_delay_is_poll_interval:
  "api_loop_delays L [PNone, PNone, PNone, PNone, PNone] (g, 0)
     = [API_POLL_INTERVAL, API_POLL_INTERVAL, API_POLL_INTERVAL, API_POLL_INTERVAL,
        API_POLL_INTERVAL]
   \<and> api_loop L [PNone, PNone, PNone, PNone, PNone] (g, 0) = (g, 5)
   \<and> map spec_retry_delay [1, 2, 3, 4, 5] = [1 / 10, 2 / 10, 3 / 10, 4 / 10, 5 / 10]
   \<and> API_POLL_INTERVAL = 1 / 50
   \<and> fst (snd (api_loop_iter L r st)) \<le> 1 / 10"
proof -
  have "fst (snd (api_loop_iter L r st)) \<le> 1 / 10"
    using api_loop_iter_delay[of L r st] by (auto simp: API_POLL_INTERVAL_def)
  then show ?thesis
    by (simp add: api_loop_iter_failed spec_retry_delay_def API_POLL_INTERVAL_def)
qed

section \<open>The connection registry\<close>

lemma fcard_five_hundred_subscribers: "fcard five_hundred_subscribers = 500"
  unfolding five_hundred_subscribers_def
  by (simp add: fcard.rep_eq fset_of_list.rep_eq)

text \<open>
  C9. With 500 subscribers registered (or more), \<^verbatim>\<open>connect\<close> returns failure and the
  registry is the one it was; with fewer, it returns success and the subscriber is in
  the registry.
\<close>

theorem connect_capacity:
  "(fcard connections \<ge> 500 \<longrightarrow> connect ws connections = (False, connections))
   \<and> (fcard connections < 500 \<longrightarrow> connect ws connections = (True, finsert ws connections))"
  by (simp add: connect_def MAX_CONNECTIONS_def)

theorem connect_capacity_witness:
  "fcard five_hundred_subscribers = 500
   \<and> connect 500 five_hundred_subscribers = (False, five_hundred_subscribers)
   \<and> fcard (snd (connect 500 five_hundred_subscribers)) = 500
   \<and> connect (7::nat) {||} = (True, {|7|})"
proof -
  have full: "fcard five_hundred_subscribers \<ge> 500"
    by (simp add: fcard_five_hundred_subscribers)
  have room: "fcard ({||} :: nat fset) < 500"
    by (simp add: fcard_fempty)
  show ?thesis
    using connect_capacity[of five_hundred_subscribers 500] connect_capacity[of "{||}" "7::nat"]
      full room fcard_five_hundred_subscribers
    by simp
qed

lemma concat_chunks_take:
  "concat (map (\<lambda>j. take k (drop (j * k) xs)) [0 ..< m]) = take (m * k) xs"
proof (induction m)
  case 0
  then show ?case by simp
next
  case (Suc m)
  have "take (m * k) xs @ take k (drop (m * k) xs) = take (m * k + k) xs"
    by (simp add: take_add)
  then show ?case using Suc by (simp add: add.commute)
qed

lemma broadcast_chunks_eq:
  "broadcast_chunks xs =
     map (\<lambda>j. take 50 (drop (j * 50) xs)) [0 ..< (length xs + 49) div 50]"
  by (simp add: broadcast_chunks_def range_step_def BROADCAST_CHUNK_SIZE_def comp_def add.commute)

lemma concat_broadcast_chunks: "concat (broadcast_chunks xs) = xs"
proof -
  have "length xs \<le> ((length xs + 49) div 50) * 50" by arith
  then show ?thesis
    by (simp add: broadcast_chunks_eq concat_chunks_take)
qed

lemma broadcast_chunks_size:
  assumes "chunk \<in> set (broadcast_chunks xs)"
  shows "chunk \<noteq> [] \<and> length chunk \<le> 50"
proof -
  obtain j where j: "j < (length xs + 49) div 50" and c: "chunk = take 50 (drop (j * 50) xs)"
    using assms by (auto simp: broadcast_chunks_eq)
  have "j * 50 < length xs" using j by arith
  then show ?thesis using c by simp
qed

lemma broadcast_failed_filter:
  "broadcast_failed net xs = filter (\<lambda>ws. \<not> send_safe (net ws)) xs"
proof -
  have "broadcast_failed net xs = filter (\<lambda>ws. \<not> send_safe (net ws)) (concat (broadcast_chunks xs))"
    by (simp add: broadcast_failed_def filter_concat)
  then show ?thesis by (simp add: concat_broadcast_chunks)
qed

lemma fold_disconnect: "fold disconnect xs reg = reg |-| fset_of_list xs"
  by (induction xs arbitrary: reg) (auto simp: disconnect_def)

lemma broadcast_eq:
  "broadcast net xs reg = reg |-| fset_of_list (filter (\<lambda>ws. \<not> send_safe (net ws)) xs)"
  by (cases xs) (simp_all add: broadcast_def broadcast_failed_filter fold_disconnect)

text \<open>
  C8. A broadcast cuts the list of current subscribers into consecutive chunks, none
  empty and none longer than 50, that together are the list. A send takes at most 5 s,
  and it succeeds exactly when it completes within 5 s. The subscribers marked are those
  whose send did not succeed, and the registry after the cycle is the registry as the
  last chunk left it without the marked ones, so none of them is in it.
\<close>

theorem broadcast_evicts_failed:
  "concat (broadcast_chunks connections) = connections
   \<and> (\<forall>chunk \<in> set (broadcast_chunks connections). chunk \<noteq> [] \<and> length chunk \<le> 50)
   \<and> send_safe_time (net ws) \<le> 5
   \<and> (send_safe (net ws) \<longleftrightarrow> (\<exists>d. net ws = Completes d \<and> d < 5))
   \<and> broadcast_failed net connections = filter (\<lambda>ws. \<not> send_safe (net ws)) connections
   \<and> broadcast net connections registry
        = registry |-| fset_of_list (filter (\<lambda>ws. \<not> send_safe (net ws)) connections)
   \<and> (ws \<in> set connections \<and> \<not> send_safe (net ws)
        \<longrightarrow> ws |\<notin>| broadcast net connections registry)"
proof -
  have t: "send_safe_time (net ws) \<le> 5"
    by (simp add: send_safe_time_def SEND_TIMEOUT_def split: send.splits)
  have s: "send_safe (net ws) \<longleftrightarrow> (\<exists>d. net ws = Completes d \<and> d < 5)"
    by (simp add: send_safe_def SEND_TIMEOUT_def split: send.splits)
  have e: "ws \<in> set connections \<and> \<not> send_safe (net ws)
        \<longrightarrow> ws |\<notin>| broadcast net connections registry"
    by (simp add: broadcast_eq fset_of_list_elem)
  show ?thesis
    using t s e broadcast_chunks_size[of _ connections]
    by (simp add: concat_broadcast_chunks broadcast_failed_filter broadcast_eq)
qed

theorem broadcast_evicts_failed_witness:
  "broadcast_chunks [1, 2, 3 :: nat] = [[1, 2, 3]]
   \<and> \<not> send_safe ((\<lambda>ws. if ws = 2 then Hangs else Completes (1 / 100)) (2 :: nat))
   \<and> broadcast_failed (\<lambda>ws. if ws = 2 then Hangs else Completes (1 / 100)) [1, 2, 3 :: nat] = [2]
   \<and> broadcast (\<lambda>ws. if ws = 2 then Hangs else Completes (1 / 100)) [1, 2, 3 :: nat] {|1, 2, 3|}
        = {|1, 3|}
   \<and> 2 |\<notin>| broadcast (\<lambda>ws. if ws = 2 then Hangs else Completes (1 / 100)) [1, 2, 3 :: nat]
        {|1, 2, 3|}"
proof -
  let ?net = "\<lambda>ws :: nat. if ws = 2 then Hangs else Completes (1 / 100)"
  have ch: "broadcast_chunks [1, 2, 3 :: nat] = [[1, 2, 3]]"
    by (simp add: broadcast_chunks_def range_step_def BROADCAST_CHUNK_SIZE_def)
  have fail: "\<not> send_safe (?net 2)" by (simp add: send_safe_def)
  have ok: "send_safe (?net 1)" "send_safe (?net 3)"
    by (simp_all add: send_safe_def SEND_TIMEOUT_def)
  have mem: "(2 :: nat) \<in> set [1, 2, 3]" by simp
  note inst = broadcast_evicts_failed[of "[1, 2, 3 :: nat]" ?net 2 "{|1, 2, 3|}"]
  have "broadcast ?net [1, 2, 3 :: nat] {|1, 2, 3|} = {|1, 3|}"
    using inst fail ok by auto
  then show ?thesis
    using inst ch fail ok mem by simp
qed

section \<open>Snapshot building on stored entries\<close>

lemma calc_profit_raises: "calc_profit_try L h modal pokok = Inl e \<Longrightarrow> calc_profit L h modal pokok = ''-''"
  by (simp add: calc_profit_def)

lemma calc_profit_missing:
  "map_of h ''buying_rate'' = None \<or> map_of h ''selling_rate'' = None
   \<Longrightarrow> \<exists>e. calc_profit_try L h modal pokok = Inl e"
  by (auto simp: calc_profit_try_def ebind_def subscript_def split: option.splits)

lemma calc_profit_zero:
  "map_of h ''buying_rate'' = Some v \<Longrightarrow> num_val v = Some 0
   \<Longrightarrow> \<exists>e. calc_profit_try L h modal pokok = Inl e"
  by (auto simp: calc_profit_try_def ebind_def subscript_def py_truediv_def split: option.splits)

text \<open>The shape of what \<^verbatim>\<open>api_loop\<close> and \<^verbatim>\<open>usd_idr_loop\<close> store.\<close>

lemma build_single_history_item_stored:
  assumes "py_hash_key upd = Inr k"
  shows "\<exists>d. build_single_history_item L (price_item b s (tick_status lb b) (tick_diff lb b) upd) = Inr d"
proof -
  have st: "tick_status lb b = STATUS_UP \<or> tick_status lb b = STATUS_DOWN \<or> tick_status lb b = STATUS_FLAT"
    by (auto simp: tick_status_def split: option.splits)
  show ?thesis
    using st assms
    by (auto simp: build_single_history_item_def ebind_def subscript_def price_item_def
        format_rupiah_def format_diff_display_def py_abs_def format_waktu_only_def
        get_day_time_def status_distinct)
qed

lemma set_deque_append: "set (deque_append n d x) \<subseteq> insert x (set d)"
proof (cases d)
  case Nil
  then show ?thesis by (simp add: deque_append_def Let_def)
next
  case (Cons a d')
  then show ?thesis by (auto simp: deque_append_def Let_def)
qed

lemma collect_succeeds:
  "(\<And>x. x \<in> set xs \<Longrightarrow> \<exists>y. f x = Inr y) \<Longrightarrow> \<exists>ys. collect f xs = Inr ys"
proof (induction xs)
  case Nil
  then show ?case by simp
next
  case (Cons x xs)
  obtain y where y: "f x = Inr y" using Cons.prems[of x] by auto
  obtain ys where ys: "collect f xs = Inr ys" using Cons by auto
  show ?case by (simp add: y ys ebind_def)
qed

lemma usd_idr_loop_iter_item:
  "fst (usd_idr_loop_iter p w g) = g \<or>
   (\<exists>q. fst (usd_idr_loop_iter p w g) =
      g\<lparr> usd_idr_history := deque_append MAX_USD_HISTORY (usd_idr_history g)
            [(''price'', PStr q), (''time'', PStr w)] \<rparr>)"
  by (auto simp: usd_idr_loop_iter_def split: option.splits sum.splits)

lemma stored_shape_api:
  assumes "stored_shape g"
  shows "stored_shape (fst (fst (api_loop_iter L r (g, ce))))"
proof -
  consider "fst (fst (api_loop_iter L r (g, ce))) = g"
    | b s upd k where "fst (fst (api_loop_iter L r (g, ce))) = store_tick b s upd k g"
        "py_hash_key upd = Inr k"
    using api_loop_iter_fst[of L r "(g, ce)"] by (auto dest!: api_loop_apply_recorded)
  then show ?thesis
  proof cases
    case 1
    then show ?thesis using assms by simp
  next
    case 2
    then show ?thesis
      using assms set_deque_append[of MAX_HISTORY "history g"]
      unfolding stored_shape_def
      by (simp add: store_tick_history store_tick_usd) blast
  qed
qed

lemma stored_shape_usd:
  assumes "stored_shape g"
  shows "stored_shape (fst (usd_idr_loop_iter p w g))"
  using usd_idr_loop_iter_item[of p w g] assms set_deque_append[of MAX_USD_HISTORY "usd_idr_history g"]
  unfolding stored_shape_def
  by (elim disjE exE) (simp, simp, blast)

lemma stored_shape_run: "stored_shape (globs (run L tes init_system))"
  by (rule run_globs_invariant)
     (simp_all add: stored_shape_api stored_shape_usd,
      simp_all add: stored_shape_def init_system_def init_globals_def)

lemma stored_shape_builds:
  assumes "stored_shape g"
  shows "\<exists>bytes. build_full_state_bytes L g = Inr bytes"
proof -
  have hist: "\<forall>h \<in> set (history g). \<exists>b s lb upd k.
          h = price_item b s (tick_status lb b) (tick_diff lb b) upd \<and> py_hash_key upd = Inr k"
    and usd: "\<forall>h \<in> set (usd_idr_history g). \<exists>q w. h = [(''price'', PStr q), (''time'', PStr w)]"
    using assms by (simp_all add: stored_shape_def)
  have h1: "\<exists>d. build_single_history_item L h = Inr d" if h: "h \<in> set (history g)" for h
  proof -
    have "\<exists>b s lb upd k.
          h = price_item b s (tick_status lb b) (tick_diff lb b) upd \<and> py_hash_key upd = Inr k"
      using hist h by (rule bspec)
    then obtain b s lb upd k
      where e: "h = price_item b s (tick_status lb b) (tick_diff lb b) upd"
        and k: "py_hash_key upd = Inr k"
      by (elim exE conjE)
    show ?thesis
      unfolding e by (rule build_single_history_item_stored[OF k])
  qed
  have "\<exists>hs. collect (build_single_history_item L) (history g) = Inr hs"
    by (rule collect_succeeds) (rule h1)
  then obtain hs where hs: "build_history_data L g = Inr hs"
    unfolding build_history_data_def by (elim exE)
  let ?f = "\<lambda>h. ebind (subscript h ''price'') (\<lambda>p. ebind (subscript h ''time'') (\<lambda>t.
           Inr (PDict [(''price'', p), (''time'', t)])))"
  have u1: "\<exists>d. ?f h = Inr d" if h: "h \<in> set (usd_idr_history g)" for h
  proof -
    have "\<exists>q w. h = [(''price'', PStr q), (''time'', PStr w)]"
      using usd h by (rule bspec)
    then obtain q w where e: "h = [(''price'', PStr q), (''time'', PStr w)]"
      by (elim exE)
    show ?thesis
      unfolding e by (simp add: ebind_def subscript_def)
  qed
  have "\<exists>us. collect ?f (usd_idr_history g) = Inr us"
    by (rule collect_succeeds) (rule u1)
  then obtain us where us: "build_usd_idr_data g = Inr us"
    unfolding build_usd_idr_data_def by (elim exE)
  show ?thesis
    by (simp add: build_full_state_bytes_def build_full_state_def hs us ebind_def)
qed


text \<open>
  C10. \<^verbatim>\<open>calc_profit\<close> returns a string whatever the item: the string the body computed
  when it raised nothing, and \<^verbatim>\<open>"-"\<close> when it raised, which it does when a rate is
  missing and when the buy rate is zero. On the module state of every run of the event
  loop the snapshot build raises nothing.
\<close>

theorem calc_profit_never_raises:
  "(\<forall>e. calc_profit_try L h modal pokok = Inl e \<longrightarrow> calc_profit L h modal pokok = ''-'')
   \<and> (\<forall>t. calc_profit_try L h modal pokok = Inr t \<longrightarrow> calc_profit L h modal pokok = t)
   \<and> (map_of h ''buying_rate'' = None \<or> map_of h ''selling_rate'' = None
        \<longrightarrow> calc_profit L h modal pokok = ''-'')
   \<and> (\<forall>v. map_of h ''buying_rate'' = Some v \<and> num_val v = Some 0
        \<longrightarrow> calc_profit L h modal pokok = ''-'')
   \<and> (\<exists>bytes. build_full_state_bytes L (globs (run L tes init_system)) = Inr bytes)"
proof -
  have a: "calc_profit L h modal pokok = ''-''"
    if "map_of h ''buying_rate'' = None \<or> map_of h ''selling_rate'' = None"
    using calc_profit_missing[OF that, of L modal pokok] calc_profit_raises by blast
  have b: "calc_profit L h modal pokok = ''-''"
    if "map_of h ''buying_rate'' = Some v \<and> num_val v = Some 0" for v
    using calc_profit_zero[of h v L modal pokok] that calc_profit_raises by blast
  have c: "\<exists>bytes. build_full_state_bytes L (globs (run L tes init_system)) = Inr bytes"
    using stored_shape_builds[OF stored_shape_run] .
  show ?thesis
    using a b c by (auto simp: calc_profit_def)
qed

theorem calc_profit_never_raises_witness:
  "calc_profit test_libs (price_item 0 990000 STATUS_FLAT 0 (PStr ''U1'')) 20000000 19314000 = ''-''
   \<and> calc_profit test_libs [(''buying_rate'', PInt 1000000)] 20000000 19314000 = ''-''
   \<and> calc_profit test_libs (price_item 1000000 990000 STATUS_FLAT 0 (PStr ''U1'')) 20000000 19314000
       = ''+486.000'' @ GREEN_ARROW @ ''20.0000gr''
   \<and> (\<exists>bytes. build_full_state_bytes test_libs (globs (run test_libs
         [(0, PriceFetched (price_result (PInt 0) (PInt 990000) (PStr ''U1'')))] init_system))
         = Inr bytes)"
proof -
  let ?h0 = "price_item 0 990000 STATUS_FLAT 0 (PStr ''U1'')"
  let ?h1 = "[(''buying_rate'', PInt 1000000)]"
  let ?h2 = "price_item 1000000 990000 STATUS_FLAT 0 (PStr ''U1'')"
  have zero: "map_of ?h0 ''buying_rate'' = Some (PInt 0) \<and> num_val (PInt 0) = Some 0"
    by (simp add: price_item_def num_val_def)
  have missing: "map_of ?h1 ''buying_rate'' = None \<or> map_of ?h1 ''selling_rate'' = None"
    by simp
  have good: "calc_profit_try test_libs ?h2 20000000 19314000
      = Inr (''+486.000'' @ GREEN_ARROW @ ''20.0000gr'')"
    by (simp add: calc_profit_try_def ebind_def subscript_def price_item_def py_truediv_def
        num_val_def test_libs_def py_trunc_def Let_def format_rupiah_def replace_comma_def
        comma_int_def dec_nat.simps fixed4_def round_half_even_def)
  show ?thesis
    using calc_profit_never_raises[of test_libs ?h0 20000000 19314000
            "[(0, PriceFetched (price_result (PInt 0) (PInt 990000) (PStr ''U1'')))]"]
      calc_profit_never_raises[of test_libs ?h1 20000000 19314000 "[]"]
      calc_profit_never_raises[of test_libs ?h2 20000000 19314000 "[]"]
      zero missing good
    by simp
qed

section \<open>The snapshot cache\<close>

lemma get_state_bytes_eq_locked:
  "get_state_bytes L now g c = get_state_bytes_locked L now g c"
  by (simp add: get_state_bytes_def get_state_bytes_locked_def)

lemma get_state_bytes_hit:
  "cache_fresh now c \<Longrightarrow> get_state_bytes L now g c = (Inr (the (cache c)), c)"
  by (simp add: get_state_bytes_def)

lemma get_state_bytes_Inr_cache:
  assumes "fst (get_state_bytes L now g c) = Inr b"
  shows "cache (snd (get_state_bytes L now g c)) = Some b"
  using assms
  by (auto simp: get_state_bytes_def get_state_bytes_locked_def cache_fresh_def
      split: if_splits sum.splits option.splits)

lemma second_call_hits:
  assumes r: "fst (get_state_bytes L t1 g1 c) = Inr b" and ne: "b \<noteq> []"
      and w: "t2 - cache_time (snd (get_state_bytes L t1 g1 c)) < STATE_CACHE_TTL"
  shows "get_state_bytes L t2 g2 (snd (get_state_bytes L t1 g1 c))
           = (Inr b, snd (get_state_bytes L t1 g1 c))"
proof -
  let ?c1 = "snd (get_state_bytes L t1 g1 c)"
  have "cache ?c1 = Some b" using get_state_bytes_Inr_cache[OF r] .
  then have "cache_fresh t2 ?c1" using ne w by (simp add: cache_fresh_def)
  then show ?thesis using \<open>cache ?c1 = Some b\<close> by (simp add: get_state_bytes_hit)
qed

text \<open>
  Once one caller has rebuilt, callers whose clock values lie less than the freshness
  window after the rebuild's clock value find the cache fresh.
\<close>

lemma locked_callers_fresh:
  assumes "cache c = Some b" and "b \<noteq> []"
      and "\<forall>(t, g) \<in> set callers. t - cache_time c < STATE_CACHE_TTL"
  shows "locked_callers L callers c = c"
  using assms
proof (induction callers)
  case Nil
  then show ?case by simp
next
  case (Cons a callers)
  obtain t g where a: "a = (t, g)" by (cases a)
  have "cache_fresh t c" using Cons.prems a by (simp add: cache_fresh_def)
  then have "snd (get_state_bytes_locked L t g c) = c"
    by (simp add: get_state_bytes_locked_def)
  then show ?case using Cons a by simp
qed

lemma locked_callers_one_rebuild:
  assumes close: "\<forall>(t, g) \<in> set callers. \<forall>(t', g') \<in> set callers. t - t' < STATE_CACHE_TTL"
      and builds: "\<forall>(t, g) \<in> set callers. \<exists>b. build_full_state_bytes L g = Inr b \<and> b \<noteq> []"
  shows "rebuilds (locked_callers L callers (invalidate c)) \<le> rebuilds c + 1"
proof (cases callers)
  case Nil
  then show ?thesis by (simp add: invalidate_def)
next
  case (Cons a rest)
  obtain t g where a: "a = (t, g)" by (cases a)
  obtain b where b: "build_full_state_bytes L g = Inr b" "b \<noteq> []"
    using builds Cons a by auto
  let ?c1 = "snd (get_state_bytes_locked L t g (invalidate c))"
  have c1: "?c1 = (invalidate c)\<lparr> cache := Some b, cache_time := t,
                                   rebuilds := rebuilds c + 1 \<rparr>"
    using b by (simp add: get_state_bytes_locked_def cache_fresh_def invalidate_def)
  have "\<forall>(t', g') \<in> set rest. t' - cache_time ?c1 < STATE_CACHE_TTL"
    using close Cons a c1 by auto
  then have "locked_callers L rest ?c1 = ?c1"
    using locked_callers_fresh[of ?c1 b rest L] b c1 by simp
  then show ?thesis using Cons a c1 by simp
qed

text \<open>
  C5. When a call of \<^verbatim>\<open>get_state_bytes\<close> has returned bytes and a second call follows,
  with no \<^verbatim>\<open>invalidate\<close> between them, while those bytes are younger than the 50 ms
  freshness window, the second call returns the same bytes and leaves every field of
  the cache, the rebuild count included, as it was. After an \<^verbatim>\<open>invalidate\<close>, callers
  that read the clock less than 50 ms apart and take the lock in any order cause at most
  one rebuild, the build raising nothing and giving bytes that are not empty.
\<close>

theorem snapshot_cache_single_flight:
  "(fst (get_state_bytes L t1 g1 c) = Inr b \<and> b \<noteq> []
      \<and> t2 - cache_time (snd (get_state_bytes L t1 g1 c)) < STATE_CACHE_TTL
    \<longrightarrow> get_state_bytes L t2 g2 (snd (get_state_bytes L t1 g1 c))
           = (Inr b, snd (get_state_bytes L t1 g1 c)))
   \<and> ((\<forall>(t, g) \<in> set callers. \<forall>(t', g') \<in> set callers. t - t' < STATE_CACHE_TTL)
       \<and> (\<forall>(t, g) \<in> set callers. \<exists>b. build_full_state_bytes L g = Inr b \<and> b \<noteq> [])
    \<longrightarrow> rebuilds (locked_callers L callers (invalidate c)) \<le> rebuilds c + 1)
   \<and> get_state_bytes L t1 g1 c = get_state_bytes_locked L t1 g1 c"
  using second_call_hits[of L t1 g1 c b t2 g2] locked_callers_one_rebuild[of callers L c]
    get_state_bytes_eq_locked[of L t1 g1 c]
  by blast

theorem snapshot_cache_single_flight_witness:
  "fst (get_state_bytes test_libs 1 init_globals init_state_cache)
     = Inr ''{\"history\":[],\"usd_idr_history\":[],\"treasury_info\":\"Belum ada info treasury.\"}''
   \<and> rebuilds (snd (get_state_bytes test_libs 1 init_globals init_state_cache)) = 1
   \<and> get_state_bytes test_libs (103 / 100) (init_globals\<lparr> treasury_info := ''x'' \<rparr>)
         (snd (get_state_bytes test_libs 1 init_globals init_state_cache))
     = (Inr ''{\"history\":[],\"usd_idr_history\":[],\"treasury_info\":\"Belum ada info treasury.\"}'',
        snd (get_state_bytes test_libs 1 init_globals init_state_cache))
   \<and> rebuilds (locked_callers test_libs
         [(1, init_globals), (101 / 100, init_globals\<lparr> treasury_info := ''x'' \<rparr>),
          (102 / 100, init_globals)] (invalidate init_state_cache))
       \<le> rebuilds init_state_cache + 1"
proof -
  let ?B = "''{\"history\":[],\"usd_idr_history\":[],\"treasury_info\":\"Belum ada info treasury.\"}''"
  let ?g2 = "init_globals\<lparr> treasury_info := ''x'' \<rparr>"
  let ?callers = "[(1 :: rat, init_globals), (101 / 100, ?g2), (102 / 100, init_globals)]"
  let ?c1 = "snd (get_state_bytes test_libs 1 init_globals init_state_cache)"
  have b: "build_full_state_bytes test_libs init_globals = Inr ?B"
    by (simp add: build_full_state_bytes_def build_full_state_def build_history_data_def
        build_usd_idr_data_def ebind_def init_globals_def test_libs_def json_quote_def)
  have b2: "\<exists>b. build_full_state_bytes test_libs ?g2 = Inr b \<and> b \<noteq> []"
    by (simp add: build_full_state_bytes_def build_full_state_def build_history_data_def
        build_usd_idr_data_def ebind_def init_globals_def test_libs_def json_quote_def)
  have c1: "get_state_bytes test_libs 1 init_globals init_state_cache
      = (Inr ?B, init_state_cache\<lparr> cache := Some ?B, cache_time := 1, rebuilds := 1 \<rparr>)"
    by (simp add: get_state_bytes_def get_state_bytes_locked_def cache_fresh_def
        init_state_cache_def b)
  have r: "fst (get_state_bytes test_libs 1 init_globals init_state_cache) = Inr ?B"
    by (simp add: c1)
  have ne: "?B \<noteq> []" by simp
  have w: "103 / 100 - cache_time ?c1 < STATE_CACHE_TTL"
    by (simp add: c1 STATE_CACHE_TTL_def)
  have close: "\<forall>(t, g) \<in> set ?callers. \<forall>(t', g') \<in> set ?callers. t - t' < STATE_CACHE_TTL"
    by (simp add: STATE_CACHE_TTL_def)
  have builds: "\<forall>(t, g) \<in> set ?callers. \<exists>b. build_full_state_bytes test_libs g = Inr b \<and> b \<noteq> []"
    using b b2 by simp
  note inst = snapshot_cache_single_flight[of test_libs 1 init_globals init_state_cache ?B
      "103 / 100" ?g2 ?callers]
  have p1: "get_state_bytes test_libs (103 / 100) ?g2 ?c1 = (Inr ?B, ?c1)"
    using inst[THEN conjunct1, rule_format] r ne w by blast
  have p2: "rebuilds (locked_callers test_libs ?callers (invalidate init_state_cache))
      \<le> rebuilds init_state_cache + 1"
    using inst[THEN conjunct2, THEN conjunct1, rule_format] close builds by blast
  have n: "rebuilds ?c1 = 1" by (simp add: c1)
  show ?thesis
    using r n p1 p2 by (intro conjI)
qed

section \<open>Bursts of change notifications\<close>

lemma run_append: "run L (xs @ ys) s = run L ys (run L xs s)"
  by (induction xs arbitrary: s) simp_all

lemma schedule_broadcast_pending: "pending s \<Longrightarrow> schedule_broadcast now s = s"
  by (simp add: schedule_broadcast_def)

text \<open>
  While a cycle is pending, a change of the module state touches neither the flag, nor
  the cache, nor the deadline, nor the messages sent.
\<close>

lemma step_change_while_pending:
  assumes "pending s" and "snd te \<noteq> GetState" and "snd te \<noteq> Wake"
  shows "pending (step L te s) \<and> state_cache (step L te s) = state_cache s
         \<and> wake_at (step L te s) = wake_at s \<and> broadcasts (step L te s) = broadcasts s"
proof (cases "snd te")
  case (Atur t)
  then show ?thesis
    using assms by (simp add: step_def atur_handler_def Let_def schedule_broadcast_pending)
next
  case (PriceFetched r)
  then show ?thesis
    using assms by (simp add: step_def Let_def schedule_broadcast_pending)
next
  case (RateFetched p w)
  then show ?thesis
    using assms by (simp add: step_def Let_def schedule_broadcast_pending)
next
  case GetState
  then show ?thesis using assms by simp
next
  case Wake
  then show ?thesis using assms by simp
qed

lemma run_changes_while_pending:
  assumes "pending s" and "\<forall>te \<in> set tes. snd te \<noteq> GetState \<and> snd te \<noteq> Wake"
  shows "pending (run L tes s) \<and> state_cache (run L tes s) = state_cache s
         \<and> wake_at (run L tes s) = wake_at s \<and> broadcasts (run L tes s) = broadcasts s"
  using assms
proof (induction tes arbitrary: s)
  case Nil
  then show ?case by simp
next
  case (Cons te tes)
  have st: "pending (step L te s) \<and> state_cache (step L te s) = state_cache s
         \<and> wake_at (step L te s) = wake_at s \<and> broadcasts (step L te s) = broadcasts s"
    using step_change_while_pending[of s te L] Cons.prems by simp
  have "pending (run L tes (step L te s))
         \<and> state_cache (run L tes (step L te s)) = state_cache (step L te s)
         \<and> wake_at (run L tes (step L te s)) = wake_at (step L te s)
         \<and> broadcasts (run L tes (step L te s)) = broadcasts (step L te s)"
    using Cons.IH[of "step L te s"] st Cons.prems by simp
  then show ?case using st by simp
qed

text \<open>
  A burst without a reader: after the first notify (flag set, cache emptied, deadline
  \<open>w\<close>) any changes follow, and the sleep ends at \<open>now\<close>. Exactly one message is added,
  the snapshot of the state at the end of the window.
\<close>

lemma burst_without_reader_sends_final_state:
  assumes p: "pending s" and c: "cache (state_cache s) = None" and w: "wake_at s = Some w"
      and late: "w \<le> now"
      and changes: "\<forall>te \<in> set tes. snd te \<noteq> GetState \<and> snd te \<noteq> Wake"
      and build: "build_full_state_bytes L (globs (run L tes s)) = Inr b"
  shows "broadcasts (run L (tes @ [(now, Wake)]) s) = broadcasts s @ [b]
         \<and> \<not> pending (run L (tes @ [(now, Wake)]) s)"
proof -
  let ?s1 = "run L tes s"
  have s1: "pending ?s1 \<and> state_cache ?s1 = state_cache s
         \<and> wake_at ?s1 = wake_at s \<and> broadcasts ?s1 = broadcasts s"
    using run_changes_while_pending[OF p changes] .
  have miss: "\<not> cache_fresh now (state_cache ?s1)"
    using s1 c by (simp add: cache_fresh_def)
  have "step L (now, Wake) ?s1 = schedule_broadcast_wake L now ?s1"
    using s1 w late by (simp add: step_def)
  moreover have "broadcasts (schedule_broadcast_wake L now ?s1) = broadcasts s @ [b]
      \<and> \<not> pending (schedule_broadcast_wake L now ?s1)"
    using miss build s1
    by (simp add: schedule_broadcast_wake_def Let_def get_state_bytes_def
        get_state_bytes_locked_def)
  ultimately show ?thesis by (simp add: run_append)
qed

lemmas burst_eval =
  step_def usd_idr_loop_iter_def init_system_def init_globals_def
  deque_append_def MAX_USD_HISTORY_def schedule_broadcast_def invalidate_def
  init_state_cache_def BROADCAST_DEBOUNCE_def USD_POLL_INTERVAL_def Let_def
  get_state_bytes_def get_state_bytes_locked_def cache_fresh_def STATE_CACHE_TTL_def
  build_full_state_bytes_def build_full_state_def build_history_data_def
  build_usd_idr_data_def ebind_def subscript_def
  atur_handler_def after_space_def replace_newlines_def schedule_broadcast_wake_def

text \<open>
  C1. In the burst with a reader, one message is broadcast and it is the snapshot built
  for the reader after the first change: the second notify returned at the pending
  test without invalidating, so at the end of the window the cache, 6 ms old, counts as
  fresh. The state at the end of the window serializes to another document, and no
  cycle is left pending that would send it. The same burst without the reader
  broadcasts the document of the end of the window.
\<close>

theorem burst_broadcasts_mid_window_snapshot:
  assumes "json_dumps_bytes L doc_after_first_change \<noteq> []"
  shows "broadcasts (run L burst_with_reader init_system)
           = [json_dumps_bytes L doc_after_first_change]
       \<and> build_full_state L (globs (run L burst_with_reader init_system))
           = Inr doc_after_last_change
       \<and> doc_after_first_change \<noteq> doc_after_last_change
       \<and> pending (run L burst_with_reader init_system) = False
       \<and> wake_at (run L burst_with_reader init_system) = None
       \<and> broadcasts (run L burst_without_reader init_system)
           = [json_dumps_bytes L doc_after_last_change]"
proof -
  have a: "broadcasts (run L burst_with_reader init_system)
           = [json_dumps_bytes L doc_after_first_change]"
    using assms
    by (simp add: burst_with_reader_def doc_after_first_change_def burst_eval)
  have b: "build_full_state L (globs (run L burst_with_reader init_system))
           = Inr doc_after_last_change"
    using assms
    by (simp add: burst_with_reader_def doc_after_first_change_def doc_after_last_change_def
        burst_eval)
  have c: "doc_after_first_change \<noteq> doc_after_last_change"
    by (simp add: doc_after_first_change_def doc_after_last_change_def)
  have d: "pending (run L burst_with_reader init_system) = False
       \<and> wake_at (run L burst_with_reader init_system) = None"
    using assms
    by (simp add: burst_with_reader_def doc_after_first_change_def burst_eval)
  have e: "broadcasts (run L burst_without_reader init_system)
           = [json_dumps_bytes L doc_after_last_change]"
    by (simp add: burst_without_reader_def doc_after_last_change_def burst_eval)
  show ?thesis using a b c d e by simp
qed

theorem burst_broadcasts_mid_window_snapshot_witness:
  "json_dumps_bytes test_libs doc_after_first_change
     = ''{\"history\":[],\"usd_idr_history\":[{\"price\":\"16,250.00\",\"time\":\"10:00:00\"}],\"treasury_info\":\"Belum ada info treasury.\"}''
   \<and> broadcasts (run test_libs burst_with_reader init_system)
     = [''{\"history\":[],\"usd_idr_history\":[{\"price\":\"16,250.00\",\"time\":\"10:00:00\"}],\"treasury_info\":\"Belum ada info treasury.\"}'']
   \<and> build_full_state_bytes test_libs (globs (run test_libs burst_with_reader init_system))
     = Inr ''{\"history\":[],\"usd_idr_history\":[{\"price\":\"16,250.00\",\"time\":\"10:00:00\"}],\"treasury_info\":\"Harga naik\"}''"
proof -
  have enc1: "json_dumps_bytes test_libs doc_after_first_change
     = ''{\"history\":[],\"usd_idr_history\":[{\"price\":\"16,250.00\",\"time\":\"10:00:00\"}],\"treasury_info\":\"Belum ada info treasury.\"}''"
    by (simp add: test_libs_def doc_after_first_change_def json_quote_def)
  have enc2: "json_dumps_bytes test_libs doc_after_last_change
     = ''{\"history\":[],\"usd_idr_history\":[{\"price\":\"16,250.00\",\"time\":\"10:00:00\"}],\"treasury_info\":\"Harga naik\"}''"
    by (simp add: test_libs_def doc_after_last_change_def json_quote_def)
  have ne: "json_dumps_bytes test_libs doc_after_first_change \<noteq> []"
    by (simp add: enc1)
  note inst = burst_broadcasts_mid_window_snapshot[OF ne]
  have s: "broadcasts (run test_libs burst_with_reader init_system)
      = [json_dumps_bytes test_libs doc_after_first_change]"
    using inst by (elim conjE)
  have f: "build_full_state test_libs (globs (run test_libs burst_with_reader init_system))
      = Inr doc_after_last_change"
    using inst by (elim conjE)
  have fb: "build_full_state_bytes test_libs (globs (run test_libs burst_with_reader init_system))
      = Inr (json_dumps_bytes test_libs doc_after_last_change)"
    by (simp add: build_full_state_bytes_def f ebind_def)
  show ?thesis
    using enc1 s fb enc2 by simp
qed

section \<open>Deduplication by update id\<close>





















end
